theory Spec2Isabelle
  imports Complex_Main "HOL-Library.Option_ord" "HOL-Library.Product_Lexorder"
begin

section \<open>Data model\<close>

text \<open>
  JavaScript numbers are modelled as \<^typ>\<open>real\<close>: the finite values, with exact
  arithmetic. Where the source tests \<^verbatim>\<open>Number.isNaN\<close>, the value is a
  \<^typ>\<open>real option\<close> and \<^term>\<open>None\<close> stands for NaN.

  \<^verbatim>\<open>PriceSample\<close> of \<^verbatim>\<open>utils/market.ts\<close> has the fields \<^verbatim>\<open>price\<close> and
  \<^verbatim>\<open>timestamp\<close> (its optional \<^verbatim>\<open>symbol\<close> is never read); \<^verbatim>\<open>PriceUpdate\<close> of the
  application adds \<^verbatim>\<open>key\<close> and \<^verbatim>\<open>symbol\<close>. The record extension mirrors the
  structural typing: every function on samples applies to updates.
\<close>

record PriceSample =
  price :: real
  timestamp :: real

record PriceUpdate = PriceSample +
  key :: string
  symbol :: string

record Metrics =
  change :: real
  percentage :: real
  basis :: "real option"
  latest :: "real option"



definition MAX_ITEMS :: nat where
  "MAX_ITEMS = 20"

definition DB_MAX_ITEMS :: nat where
  "DB_MAX_ITEMS = 60"

definition ALERT_MAX_ITEMS :: nat where
  "ALERT_MAX_ITEMS = 20"

section \<open>Analytics: \<^verbatim>\<open>computeMetrics\<close> and \<^verbatim>\<open>computeSparklinePoints\<close>\<close>

text \<open>
  \<^verbatim>\<open>entries[0]\<close> and \<^verbatim>\<open>entries[entries.length - 1]\<close> are read only behind the
  emptiness test, so both indices are in range.
\<close>

definition computeMetrics :: "'a PriceSample_scheme list \<Rightarrow> Metrics" where
  "computeMetrics entries =
     (if length entries = 0
      then \<lparr>change = 0, percentage = 0, basis = None, latest = None\<rparr>
      else
        let latest_price = price (entries ! 0);
            oldest = price (entries ! (length entries - 1));
            delta = latest_price - oldest;
            pct = (if oldest \<noteq> 0 then (delta / oldest) * 100 else 0)
        in \<lparr>change = delta, percentage = pct, basis = Some oldest, latest = Some latest_price\<rparr>)"


section \<open>Tick buffer: \<^verbatim>\<open>handleMessage\<close>\<close>

text \<open>
  A trade of the inbound payload after the source's coercions: \<^verbatim>\<open>trade_s\<close> is the
  field \<^verbatim>\<open>s\<close> when it is a string, \<^verbatim>\<open>trade_p\<close> and \<^verbatim>\<open>trade_t\<close> are
  \<^verbatim>\<open>Number(trade.p)\<close> and \<^verbatim>\<open>Number(trade.t)\<close>, with \<^term>\<open>None\<close> for NaN.
\<close>

record Trade =
  trade_s :: "string option"
  trade_p :: "real option"
  trade_t :: "real option"

text \<open>
  The result of \<^verbatim>\<open>JSON.parse\<close> on a text frame: a parse error, or a payload whose
  \<^verbatim>\<open>data\<close> field is an array (\<^term>\<open>Some\<close>) or anything else. An array element that is \<^verbatim>\<open>null\<close> is
  \<^term>\<open>None\<close>: reading its field throws, and the handler's \<^verbatim>\<open>catch\<close> ends the loop.
\<close>

datatype Parsed = ParseError | Payload "Trade option list option"

text \<open>
  The key \<^verbatim>\<open>`${symbol}-${timestamp}-${price}`\<close>. The conversion of a number to a
  string belongs to the language, not to the repository: it is the parameter \<open>numStr\<close>.
\<close>

definition mkKey :: "(real \<Rightarrow> string) \<Rightarrow> string \<Rightarrow> real \<Rightarrow> real \<Rightarrow> string" where
  "mkKey numStr symb ts pr = symb @ ''-'' @ numStr ts @ ''-'' @ numStr pr"

definition decodeTrade :: "(real \<Rightarrow> string) \<Rightarrow> string \<Rightarrow> Trade \<Rightarrow> PriceUpdate option" where
  "decodeTrade numStr symbolForSession trade =
     (case trade_s trade of
        None \<Rightarrow> None
      | Some symb \<Rightarrow>
          (case trade_p trade of
             None \<Rightarrow> None
           | Some pr \<Rightarrow>
               (case trade_t trade of
                  None \<Rightarrow> None
                | Some ts \<Rightarrow>
                    if symb = [] \<or> symb \<noteq> symbolForSession then None
                    else Some \<lparr>price = pr, timestamp = ts,
                               key = mkKey numStr symb ts pr, symbol = symb\<rparr>)))"

text \<open>The updater passed to \<^verbatim>\<open>setUpdates\<close>.\<close>

definition pushUpdate :: "PriceUpdate \<Rightarrow> PriceUpdate list \<Rightarrow> PriceUpdate list" where
  "pushUpdate update prev =
     (let next = update # filter (\<lambda>item. key item \<noteq> key update) prev
      in take MAX_ITEMS next)"

text \<open>
  The body of \<^verbatim>\<open>trades.forEach\<close>. The state is the buffer and the updates handed to
  \<^verbatim>\<open>persistAndCheckUpdate\<close>, in order.
\<close>

fun forEachTrade ::
  "(real \<Rightarrow> string) \<Rightarrow> string \<Rightarrow> Trade option list
     \<Rightarrow> PriceUpdate list \<times> PriceUpdate list \<Rightarrow> PriceUpdate list \<times> PriceUpdate list" where
  "forEachTrade numStr symbolForSession [] st = st"
| "forEachTrade numStr symbolForSession (None # rest) st = st"
| "forEachTrade numStr symbolForSession (Some trade # rest) (updates, spawned) =
     (case decodeTrade numStr symbolForSession trade of
        None \<Rightarrow> forEachTrade numStr symbolForSession rest (updates, spawned)
      | Some update \<Rightarrow>
          forEachTrade numStr symbolForSession rest
            (pushUpdate update updates, spawned @ [update]))"

definition handleMessage ::
  "(real \<Rightarrow> string) \<Rightarrow> string \<Rightarrow> Parsed \<Rightarrow> PriceUpdate list
     \<Rightarrow> PriceUpdate list \<times> PriceUpdate list" where
  "handleMessage numStr symbolForSession data updates =
     (case data of
        ParseError \<Rightarrow> (updates, [])
      | Payload d \<Rightarrow>
          let trades = (case d of Some ts \<Rightarrow> ts | None \<Rightarrow> [])
          in if length trades = 0 then (updates, [])
             else forEachTrade numStr symbolForSession trades (updates, []))"





text \<open>A decimal rendering of the integer part, to run the model on concrete ticks.\<close>

fun decimal :: "nat \<Rightarrow> string" where
  "decimal n =
     (if n < 10 then [char_of (48 + n)]
      else decimal (n div 10) @ [char_of (48 + n mod 10)])"

declare decimal.simps [simp del]

definition showInt :: "real \<Rightarrow> string" where
  "showInt x = decimal (nat \<lfloor>x\<rfloor>)"

section \<open>The SQLite store\<close>

text \<open>
  The two tables, as the lists of their rows. The \<^verbatim>\<open>id\<close> columns are
  \<^verbatim>\<open>INTEGER PRIMARY KEY AUTOINCREMENT\<close>: an insert takes the successor of the largest
  id the table ever held, which the database keeps beside the table. \<^verbatim>\<open>direction\<close> is a
  \<^verbatim>\<open>TEXT\<close> column and \<^verbatim>\<open>triggered\<close> an \<^verbatim>\<open>INTEGER\<close> one. \<^verbatim>\<open>alert_price\<close> is the
  value after the readers' coercion to a number, \<^term>\<open>None\<close> for NaN. The statements
  are taken to succeed: the \<^verbatim>\<open>catch\<close> branches, which only log, are not modelled.
\<close>

record UpdateRow =
  row_id :: int
  row_symbol :: string
  row_price :: real
  row_timestamp :: real

record AlertRow =
  alert_id :: int
  alert_symbol :: string
  alert_direction :: string
  alert_price :: "real option"
  alert_triggered :: int

record Database =
  price_updates :: "UpdateRow list"
  price_updates_seq :: int
  price_alerts :: "AlertRow list"
  price_alerts_seq :: int

text \<open>\<^verbatim>\<open>INSERT INTO price_updates (symbol, price, timestamp) VALUES (?, ?, ?)\<close>\<close>

definition insertUpdate :: "string \<Rightarrow> real \<Rightarrow> real \<Rightarrow> Database \<Rightarrow> Database" where
  "insertUpdate symb pr ts db =
     db\<lparr>price_updates := price_updates db @
           [\<lparr>row_id = price_updates_seq db + 1, row_symbol = symb,
             row_price = pr, row_timestamp = ts\<rparr>],
        price_updates_seq := price_updates_seq db + 1\<rparr>"

text \<open>
  \<^verbatim>\<open>DELETE FROM price_updates WHERE symbol = ? AND id NOT IN (SELECT id FROM
  price_updates WHERE symbol = ? ORDER BY timestamp DESC LIMIT ?)\<close>. Rows of equal
  timestamp are taken in table order.
\<close>

definition pruneUpdates :: "string \<Rightarrow> string \<Rightarrow> nat \<Rightarrow> Database \<Rightarrow> Database" where
  "pruneUpdates symb1 symb2 limit db =
     (let keep = map row_id
            (take limit
               (sort_key (\<lambda>r. - row_timestamp r)
                  (filter (\<lambda>r. row_symbol r = symb2) (price_updates db))))
      in db\<lparr>price_updates :=
              filter (\<lambda>r. \<not> (row_symbol r = symb1 \<and> row_id r \<notin> set keep)) (price_updates db)\<rparr>)"


text \<open>\<^verbatim>\<open>INSERT INTO price_alerts (symbol, direction, price, triggered) VALUES (?, ?, ?, 0)\<close>\<close>

definition insertAlert :: "string \<Rightarrow> string \<Rightarrow> real \<Rightarrow> Database \<Rightarrow> Database" where
  "insertAlert symb dir pr db =
     db\<lparr>price_alerts := price_alerts db @
           [\<lparr>alert_id = price_alerts_seq db + 1, alert_symbol = symb, alert_direction = dir,
             alert_price = Some pr, alert_triggered = 0\<rparr>],
        price_alerts_seq := price_alerts_seq db + 1\<rparr>"

text \<open>
  \<^verbatim>\<open>DELETE FROM price_alerts WHERE symbol = ? AND id NOT IN (SELECT id FROM
  price_alerts WHERE symbol = ? ORDER BY triggered ASC, id DESC LIMIT ?)\<close>
\<close>

definition pruneAlerts :: "string \<Rightarrow> string \<Rightarrow> nat \<Rightarrow> Database \<Rightarrow> Database" where
  "pruneAlerts symb1 symb2 limit db =
     (let keep = map alert_id
            (take limit
               (sort_key (\<lambda>r. (alert_triggered r, - alert_id r))
                  (filter (\<lambda>r. alert_symbol r = symb2) (price_alerts db))))
      in db\<lparr>price_alerts :=
              filter (\<lambda>r. \<not> (alert_symbol r = symb1 \<and> alert_id r \<notin> set keep)) (price_alerts db)\<rparr>)"

text \<open>\<^verbatim>\<open>DELETE FROM price_alerts WHERE id = ?\<close>\<close>

definition deleteAlert :: "int \<Rightarrow> Database \<Rightarrow> Database" where
  "deleteAlert i db = db\<lparr>price_alerts := filter (\<lambda>r. alert_id r \<noteq> i) (price_alerts db)\<rparr>"

text \<open>\<^verbatim>\<open>SELECT id, direction, price FROM price_alerts WHERE symbol = ? AND triggered = 0\<close>\<close>

definition selectUntriggered :: "string \<Rightarrow> Database \<Rightarrow> AlertRow list" where
  "selectUntriggered symb db =
     filter (\<lambda>r. alert_symbol r = symb \<and> alert_triggered r = 0) (price_alerts db)"

text \<open>\<^verbatim>\<open>UPDATE price_alerts SET triggered = 1 WHERE id IN (...)\<close>\<close>

definition markTriggered :: "int list \<Rightarrow> Database \<Rightarrow> Database" where
  "markTriggered ids db =
     db\<lparr>price_alerts :=
          map (\<lambda>r. if alert_id r \<in> set ids then r\<lparr>alert_triggered := 1\<rparr> else r) (price_alerts db)\<rparr>"

text \<open>
  \<^verbatim>\<open>SELECT id, symbol, direction, price, triggered FROM price_alerts WHERE symbol = ?
  ORDER BY triggered ASC, price ASC LIMIT ?\<close>
\<close>

definition selectAlerts :: "string \<Rightarrow> nat \<Rightarrow> Database \<Rightarrow> AlertRow list" where
  "selectAlerts symb limit db =
     take limit
       (sort_key (\<lambda>r. (alert_triggered r, alert_price r))
          (filter (\<lambda>r. alert_symbol r = symb) (price_alerts db)))"

section \<open>The application state\<close>

datatype Status = Connecting | Open | Closed | Error

datatype Direction = Above | Below

definition directionText :: "Direction \<Rightarrow> string" where
  "directionText d = (case d of Above \<Rightarrow> ''above'' | Below \<Rightarrow> ''below'')"

text \<open>
  \<^verbatim>\<open>AlertThreshold\<close>, the alert as the screen lists it. Its \<^verbatim>\<open>id\<close> is the row's id
  (the source keeps it as a string and converts it back on deletion).
\<close>

record AlertThreshold =
  th_id :: int
  th_symbol :: string
  th_direction :: Direction
  th_price :: "real option"
  th_triggered :: bool

text \<open>
  A local notification handed to the notification service. The body is one of two
  sentences, each with the threshold and the current price.
\<close>

datatype Body = MovedAbove real real | FellBelow real real

record Notification =
  title :: string
  body :: Body

text \<open>
  One run of the WebSocket effect: its closure variables \<^verbatim>\<open>manualClose\<close> and
  \<^verbatim>\<open>symbolForSession\<close>.
\<close>

record Session =
  manualClose :: bool
  symbolForSession :: string

text \<open>A WebSocket the application has created, and a timeout pending in the host.\<close>

record Socket =
  sock_session :: nat
  sock_sent :: "string list"
  sock_closeCalled :: bool

record Timer =
  timer_id :: nat
  timer_session :: nat
  timer_delay :: nat

text \<open>
  The component's state (\<^verbatim>\<open>useState\<close> and \<^verbatim>\<open>useRef\<close>), followed by what the host
  holds for it: the effect runs so far, the sockets created, the pending timeouts with the
  last handle given out (handles are positive, hence truthy), and the notifications
  scheduled.
\<close>

record App =
  activeSymbol :: string
  symbolInput :: string
  updates :: "PriceUpdate list"
  connectionStatus :: Status
  errorMessage :: "string option"
  freshTimestamp :: "real option"
  alerts :: "AlertThreshold list"
  alertModalVisible :: bool
  alertError :: "string option"
  wsRef :: "nat option"
  reconnectTimerRef :: "nat option"
  dbRef :: "Database option"
  sessions :: "Session list"
  sockets :: "Socket list"
  timers :: "Timer list"
  timerSeq :: nat
  scheduled :: "Notification list"

definition DEFAULT_SYMBOL :: string where
  "DEFAULT_SYMBOL = ''AAPL''"

definition initialApp :: App where
  "initialApp =
     \<lparr>activeSymbol = DEFAULT_SYMBOL, symbolInput = DEFAULT_SYMBOL, updates = [],
      connectionStatus = Connecting, errorMessage = None, freshTimestamp = None,
      alerts = [], alertModalVisible = False, alertError = None,
      wsRef = None, reconnectTimerRef = None, dbRef = None,
      sessions = [], sockets = [], timers = [], timerSeq = 0, scheduled = []\<rparr>"

section \<open>Persistence and alerts\<close>

definition toThreshold :: "AlertRow \<Rightarrow> AlertThreshold" where
  "toThreshold row =
     \<lparr>th_id = alert_id row, th_symbol = alert_symbol row,
      th_direction = (if alert_direction row = ''below'' then Below else Above),
      th_price = alert_price row, th_triggered = (alert_triggered row = 1)\<rparr>"

definition loadAlerts :: "string \<Rightarrow> App \<Rightarrow> App" where
  "loadAlerts symb app =
     (case dbRef app of
        None \<Rightarrow> app\<lparr>alerts := []\<rparr>
      | Some db \<Rightarrow> app\<lparr>alerts := map toThreshold (selectAlerts symb ALERT_MAX_ITEMS db)\<rparr>)"


text \<open>The stored history of a symbol, and its stored alerts.\<close>

definition historyOf :: "string \<Rightarrow> App \<Rightarrow> UpdateRow list" where
  "historyOf symb app =
     (case dbRef app of
        None \<Rightarrow> []
      | Some db \<Rightarrow> filter (\<lambda>r. row_symbol r = symb) (price_updates db))"

definition alertsOf :: "string \<Rightarrow> App \<Rightarrow> AlertRow list" where
  "alertsOf symb app =
     (case dbRef app of
        None \<Rightarrow> []
      | Some db \<Rightarrow> filter (\<lambda>r. alert_symbol r = symb) (price_alerts db))"

text \<open>
  \<^verbatim>\<open>persistUpdate\<close>: the insert, then the prune. The versions of the application differ
  in the limit they pass to the prune only: \<^verbatim>\<open>DB_MAX_ITEMS\<close> in the current one,
  \<^verbatim>\<open>MAX_ITEMS\<close> in the first.
\<close>

definition persistUpdateWith :: "nat \<Rightarrow> PriceUpdate \<Rightarrow> App \<Rightarrow> App" where
  "persistUpdateWith limit update app =
     (case dbRef app of
        None \<Rightarrow> app
      | Some db \<Rightarrow>
          app\<lparr>dbRef := Some
                (pruneUpdates (symbol update) (symbol update) limit
                   (insertUpdate (symbol update) (price update) (timestamp update) db))\<rparr>)"

definition persistUpdate :: "PriceUpdate \<Rightarrow> App \<Rightarrow> App" where
  "persistUpdate update app = persistUpdateWith DB_MAX_ITEMS update app"

text \<open>
  The decision of \<^verbatim>\<open>checkAlertsForUpdate\<close> for one selected row: any direction other
  than \<^verbatim>\<open>'below'\<close> counts as \<^verbatim>\<open>'above'\<close>, a price that is not a number never
  triggers, and both comparisons include equality.
\<close>

definition isTriggered :: "PriceUpdate \<Rightarrow> AlertRow \<Rightarrow> bool" where
  "isTriggered update row =
     (let direction = (if alert_direction row = ''below'' then ''below'' else ''above'')
      in case alert_price row of
           None \<Rightarrow> False
         | Some priceValue \<Rightarrow>
             (direction = ''above'' \<and> price update \<ge> priceValue)
           \<or> (direction = ''below'' \<and> price update \<le> priceValue))"

definition alertNotification :: "PriceUpdate \<Rightarrow> AlertRow \<Rightarrow> Notification option" where
  "alertNotification update row =
     (case alert_price row of
        None \<Rightarrow> None
      | Some priceValue \<Rightarrow>
          Some \<lparr>title = symbol update @ '' price alert'',
                body = (if alert_direction row = ''below''
                        then FellBelow priceValue (price update)
                        else MovedAbove priceValue (price update))\<rparr>)"

text \<open>
  \<^verbatim>\<open>checkAlertsForUpdate\<close> awaits the database twice. Up to the first write it selects
  the untriggered rows of the update's symbol, decides each and schedules the
  notifications: \<^verbatim>\<open>evaluateAlerts\<close>, which returns \<^verbatim>\<open>triggeredIds\<close>. Then it marks these
  ids and reloads the listed alerts for the update's symbol: \<^verbatim>\<open>markAndReload\<close>.
\<close>

definition evaluateAlerts :: "bool \<Rightarrow> PriceUpdate \<Rightarrow> App \<Rightarrow> int list \<times> App" where
  "evaluateAlerts notificationAllowed update app =
     (case dbRef app of
        None \<Rightarrow> ([], app)
      | Some db \<Rightarrow>
          let rows = selectUntriggered (symbol update) db;
              hits = filter (isTriggered update) rows;
              triggeredIds = map alert_id hits
          in (triggeredIds,
              if notificationAllowed
              then app\<lparr>scheduled := scheduled app @ List.map_filter (alertNotification update) hits\<rparr>
              else app))"

definition markAndReload :: "PriceUpdate \<Rightarrow> int list \<Rightarrow> App \<Rightarrow> App" where
  "markAndReload update triggeredIds app =
     (if length triggeredIds = 0 then app
      else case dbRef app of
             None \<Rightarrow> app
           | Some db \<Rightarrow>
               loadAlerts (symbol update) (app\<lparr>dbRef := Some (markTriggered triggeredIds db)\<rparr>))"

definition checkAlertsForUpdate :: "bool \<Rightarrow> PriceUpdate \<Rightarrow> App \<Rightarrow> App" where
  "checkAlertsForUpdate notificationAllowed update app =
     (case evaluateAlerts notificationAllowed update app of
        (triggeredIds, app1) \<Rightarrow> markAndReload update triggeredIds app1)"

definition persistAndCheckUpdate :: "bool \<Rightarrow> PriceUpdate \<Rightarrow> App \<Rightarrow> App" where
  "persistAndCheckUpdate notificationAllowed update app =
     checkAlertsForUpdate notificationAllowed update (persistUpdate update app)"

text \<open>
  \<^verbatim>\<open>applySymbol\<close>, on the input already trimmed and upper-cased.
\<close>

definition applySymbol :: "string \<Rightarrow> App \<Rightarrow> App" where
  "applySymbol normalizedSymbol app =
     (if normalizedSymbol = [] then app\<lparr>errorMessage := Some ''Enter a symbol to subscribe.''\<rparr>
      else
        let app1 = app\<lparr>symbolInput := normalizedSymbol, errorMessage := None\<rparr>
        in if normalizedSymbol = activeSymbol app then app1
           else app1\<lparr>activeSymbol := normalizedSymbol, updates := [],
                     freshTimestamp := None, errorMessage := None\<rparr>)"

definition handleRemoveAlert :: "int \<Rightarrow> App \<Rightarrow> App" where
  "handleRemoveAlert alertId app =
     (case dbRef app of
        None \<Rightarrow> app
      | Some db \<Rightarrow> loadAlerts (activeSymbol app) (app\<lparr>dbRef := Some (deleteAlert alertId db)\<rparr>))"

text \<open>
  \<^verbatim>\<open>handleSaveAlert\<close>; \<open>alertPrice\<close> is \<^verbatim>\<open>Number(alertPriceText)\<close>, \<^term>\<open>None\<close> for NaN.
\<close>

definition handleSaveAlert :: "Direction \<Rightarrow> real option \<Rightarrow> App \<Rightarrow> App" where
  "handleSaveAlert alertDirection alertPrice app =
     (case dbRef app of
        None \<Rightarrow> app\<lparr>alertError := Some ''Storage not ready yet.''\<rparr>
      | Some db \<Rightarrow>
          (case alertPrice of
             None \<Rightarrow> app\<lparr>alertError := Some ''Enter a valid price greater than zero.''\<rparr>
           | Some pr \<Rightarrow>
               if pr \<le> 0
               then app\<lparr>alertError := Some ''Enter a valid price greater than zero.''\<rparr>
               else
                 let db1 = insertAlert (activeSymbol app) (directionText alertDirection) pr db;
                     db2 = pruneAlerts (activeSymbol app) (activeSymbol app) ALERT_MAX_ITEMS db1;
                     app1 = loadAlerts (activeSymbol app) (app\<lparr>dbRef := Some db2\<rparr>)
                 in app1\<lparr>alertModalVisible := False, alertError := None\<rparr>))"

section \<open>The WebSocket session\<close>

text \<open>
  \<open>FINNHUB_TOKEN\<close> is the configured token after trimming; \<^verbatim>\<open>hasToken\<close> tests its length.
\<close>

definition hasToken :: "string \<Rightarrow> bool" where
  "hasToken FINNHUB_TOKEN \<longleftrightarrow> length FINNHUB_TOKEN > 0"

text \<open>
  The host's timers. \<^verbatim>\<open>setTimeout\<close> returns a fresh positive handle; \<^verbatim>\<open>clearTimeout\<close>
  drops the pending callback of a handle. \<^verbatim>\<open>if (reconnectTimerRef.current)\<close> tests
  that the reference holds a handle other than 0.
\<close>

definition setTimeout :: "nat \<Rightarrow> nat \<Rightarrow> App \<Rightarrow> nat \<times> App" where
  "setTimeout k delay app =
     (let h = timerSeq app + 1
      in (h, app\<lparr>timerSeq := h,
                 timers := timers app @ [\<lparr>timer_id = h, timer_session = k, timer_delay = delay\<rparr>]\<rparr>))"

definition clearTimeout :: "nat \<Rightarrow> App \<Rightarrow> App" where
  "clearTimeout h app = app\<lparr>timers := filter (\<lambda>t. timer_id t \<noteq> h) (timers app)\<rparr>"

definition timerSet :: "App \<Rightarrow> bool" where
  "timerSet app = (case reconnectTimerRef app of None \<Rightarrow> False | Some h \<Rightarrow> h \<noteq> 0)"

text \<open>\<^verbatim>\<open>ws.close()\<close> on a socket the application created.\<close>

definition closeSocket :: "nat \<Rightarrow> App \<Rightarrow> App" where
  "closeSocket n app =
     (if n < length (sockets app)
      then app\<lparr>sockets := (sockets app)[n := (sockets app ! n)\<lparr>sock_closeCalled := True\<rparr>]\<rparr>
      else app)"

text \<open>\<^verbatim>\<open>connect\<close> of the effect run \<open>k\<close>: a new socket becomes the current one.\<close>

definition connect :: "string \<Rightarrow> nat \<Rightarrow> App \<Rightarrow> App" where
  "connect FINNHUB_TOKEN k app =
     app\<lparr>connectionStatus := Connecting, errorMessage := None,
         sockets := sockets app @
           [\<lparr>sock_session = k, sock_sent = [], sock_closeCalled = False\<rparr>],
         wsRef := Some (length (sockets app))\<rparr>"

definition scheduleReconnect :: "nat \<Rightarrow> App \<Rightarrow> App" where
  "scheduleReconnect k app =
     (if k < length (sessions app) then
        if manualClose (sessions app ! k) \<or> timerSet app then app
        else
          case setTimeout k 3000 app of
            (h, app1) \<Rightarrow> app1\<lparr>reconnectTimerRef := Some h\<rparr>
      else app)"

text \<open>The callback given to \<^verbatim>\<open>setTimeout\<close>, run when the host fires the timer.\<close>

definition reconnectCallback :: "string \<Rightarrow> nat \<Rightarrow> App \<Rightarrow> App" where
  "reconnectCallback FINNHUB_TOKEN k app =
     connect FINNHUB_TOKEN k (app\<lparr>reconnectTimerRef := None\<rparr>)"

definition timerFires :: "string \<Rightarrow> nat \<Rightarrow> App \<Rightarrow> App" where
  "timerFires FINNHUB_TOKEN h app =
     (case find (\<lambda>t. timer_id t = h) (timers app) of
        None \<Rightarrow> app
      | Some t \<Rightarrow> reconnectCallback FINNHUB_TOKEN (timer_session t) (clearTimeout h app))"

text \<open>
  The handlers \<^verbatim>\<open>connect\<close> installs on socket \<open>n\<close>; an event for a socket that was
  never created does nothing.
\<close>

definition ws_onopen :: "nat \<Rightarrow> App \<Rightarrow> App" where
  "ws_onopen n app =
     (if n < length (sockets app) \<and> sock_session (sockets app ! n) < length (sessions app)
      then
        let sock = sockets app ! n;
            symb = symbolForSession (sessions app ! sock_session sock)
        in app\<lparr>connectionStatus := Open,
               sockets := (sockets app)[n := sock\<lparr>sock_sent := sock_sent sock @ [symb]\<rparr>]\<rparr>
      else app)"

definition ws_onmessage :: "(real \<Rightarrow> string) \<Rightarrow> nat \<Rightarrow> Parsed \<Rightarrow> App \<Rightarrow> App \<times> PriceUpdate list" where
  "ws_onmessage numStr n data app =
     (if n < length (sockets app) \<and> sock_session (sockets app ! n) < length (sessions app)
      then
        let symb = symbolForSession (sessions app ! sock_session (sockets app ! n))
        in case handleMessage numStr symb data (updates app) of
             (buf, spawned) \<Rightarrow>
               (if spawned = [] then (app, [])
                else (app\<lparr>updates := buf, freshTimestamp := Some (timestamp (last spawned)),
                          errorMessage := None\<rparr>, spawned))
      else (app, []))"

definition ws_onerror :: "nat \<Rightarrow> App \<Rightarrow> App" where
  "ws_onerror n app =
     (if n < length (sockets app)
      then app\<lparr>connectionStatus := Error,
               errorMessage := Some ''Live feed error, attempting to reconnect...''\<rparr>
      else app)"

definition ws_onclose :: "nat \<Rightarrow> App \<Rightarrow> App" where
  "ws_onclose n app =
     (if n < length (sockets app) \<and> sock_session (sockets app ! n) < length (sessions app)
      then
        let k = sock_session (sockets app ! n)
        in if manualClose (sessions app ! k) then app
           else scheduleReconnect k (app\<lparr>connectionStatus := Closed\<rparr>)
      else app)"

text \<open>
  The body of the effect: a new run with \<^verbatim>\<open>manualClose = false\<close> and the active symbol.
  Without a token it clears a pending reconnect, closes the current socket, reports the
  error and never calls \<^verbatim>\<open>connect\<close>.
\<close>

definition startSession :: "string \<Rightarrow> App \<Rightarrow> App" where
  "startSession FINNHUB_TOKEN app =
     (let k = length (sessions app);
          app1 = app\<lparr>sessions := sessions app @
                   [\<lparr>manualClose = False, symbolForSession = activeSymbol app\<rparr>]\<rparr>
      in if \<not> hasToken FINNHUB_TOKEN then
           let app2 = (case reconnectTimerRef app1 of
                         None \<Rightarrow> app1
                       | Some h \<Rightarrow> if h \<noteq> 0
                                   then (clearTimeout h app1)\<lparr>reconnectTimerRef := None\<rparr>
                                   else app1);
               app3 = (case wsRef app2 of
                         None \<Rightarrow> app2
                       | Some n \<Rightarrow> (closeSocket n app2)\<lparr>wsRef := None\<rparr>)
           in app3\<lparr>connectionStatus := Error,
                   errorMessage := Some ''Set EXPO_PUBLIC_FINNHUB_TOKEN to stream live data.''\<rparr>
         else connect FINNHUB_TOKEN k app1)"

text \<open>The cleanup the effect run \<open>k\<close> returned.\<close>

definition cleanupSession :: "string \<Rightarrow> nat \<Rightarrow> App \<Rightarrow> App" where
  "cleanupSession FINNHUB_TOKEN k app =
     (if k < length (sessions app) then
        let app1 = app\<lparr>sessions := (sessions app)[k := (sessions app ! k)\<lparr>manualClose := True\<rparr>]\<rparr>
        in if \<not> hasToken FINNHUB_TOKEN then app1
           else
             let app2 = (case reconnectTimerRef app1 of
                           None \<Rightarrow> app1
                         | Some h \<Rightarrow> if h \<noteq> 0
                                     then (clearTimeout h app1)\<lparr>reconnectTimerRef := None\<rparr>
                                     else app1);
                 app3 = (case wsRef app2 of
                           None \<Rightarrow> app2
                         | Some n \<Rightarrow> closeSocket n app2)
             in app3\<lparr>wsRef := None\<rparr>
      else app)"

text \<open>
  What can happen to a session, in any order: an effect run or a cleanup, a socket event,
  a timer firing, a symbol applied by the user.
\<close>

datatype SessionEvent =
    EffectRun
  | EffectCleanup nat
  | WsOpen nat
  | WsMessage nat Parsed
  | WsError nat
  | WsClose nat
  | TimerFires nat
  | ApplySymbol string

fun sessionStep :: "string \<Rightarrow> (real \<Rightarrow> string) \<Rightarrow> App \<Rightarrow> SessionEvent \<Rightarrow> App" where
  "sessionStep tok numStr app EffectRun = startSession tok app"
| "sessionStep tok numStr app (EffectCleanup k) = cleanupSession tok k app"
| "sessionStep tok numStr app (WsOpen n) = ws_onopen n app"
| "sessionStep tok numStr app (WsMessage n data) = fst (ws_onmessage numStr n data app)"
| "sessionStep tok numStr app (WsError n) = ws_onerror n app"
| "sessionStep tok numStr app (WsClose n) = ws_onclose n app"
| "sessionStep tok numStr app (TimerFires h) = timerFires tok h app"
| "sessionStep tok numStr app (ApplySymbol s) = applySymbol s app"

definition sessionRun :: "string \<Rightarrow> (real \<Rightarrow> string) \<Rightarrow> SessionEvent list \<Rightarrow> App \<Rightarrow> App" where
  "sessionRun tok numStr evs app = foldl (sessionStep tok numStr) app evs"

text \<open>
  The reference and the host agree: no reference and no pending timer, or a reference to
  the one pending timer, which has the fixed delay of 3000 ms.
\<close>

definition timer_inv :: "App \<Rightarrow> bool" where
  "timer_inv app \<longleftrightarrow>
     (case reconnectTimerRef app of
        None \<Rightarrow> timers app = []
      | Some h \<Rightarrow> h \<noteq> 0 \<and> map timer_id (timers app) = [h] \<and> map timer_delay (timers app) = [3000])"

text \<open>The state of a session that never connected: nothing created, nothing pending.\<close>

definition idle :: "App \<Rightarrow> bool" where
  "idle app \<longleftrightarrow> sockets app = [] \<and> timers app = [] \<and> reconnectTimerRef app = None
     \<and> wsRef app = None \<and> connectionStatus app = Error"

section \<open>Alert evaluations in flight\<close>

text \<open>
  \<^verbatim>\<open>handleMessage\<close> starts \<^verbatim>\<open>persistAndCheckUpdate\<close> without awaiting it, so evaluations
  overlap: between the selection and the write of one, others may select or write, and the
  user may delete or save alerts. An evaluation in flight is the update with its
  \<^verbatim>\<open>triggeredIds\<close>.
\<close>

datatype AlertEvent =
    EvalStart PriceUpdate
  | EvalFinish nat
  | RemoveAlert int
  | SaveAlert Direction "real option"

fun alertStep ::
  "bool \<Rightarrow> AlertEvent \<Rightarrow> App \<times> (PriceUpdate \<times> int list) list
     \<Rightarrow> int list \<times> App \<times> (PriceUpdate \<times> int list) list" where
  "alertStep notificationAllowed (EvalStart update) (app, inflight) =
     (case evaluateAlerts notificationAllowed update app of
        (triggeredIds, app1) \<Rightarrow> (triggeredIds, app1, inflight @ [(update, triggeredIds)]))"
| "alertStep notificationAllowed (EvalFinish j) (app, inflight) =
     (if j < length inflight
      then ([], markAndReload (fst (inflight ! j)) (snd (inflight ! j)) app,
            take j inflight @ drop (Suc j) inflight)
      else ([], app, inflight))"
| "alertStep notificationAllowed (RemoveAlert alertId) (app, inflight) =
     ([], handleRemoveAlert alertId app, inflight)"
| "alertStep notificationAllowed (SaveAlert alertDirection alertPrice) (app, inflight) =
     ([], handleSaveAlert alertDirection alertPrice app, inflight)"

text \<open>The ids fired along a run of events, in order, and the state reached.\<close>

fun alertRun ::
  "bool \<Rightarrow> AlertEvent list \<Rightarrow> App \<times> (PriceUpdate \<times> int list) list
     \<Rightarrow> int list \<times> App \<times> (PriceUpdate \<times> int list) list" where
  "alertRun notificationAllowed [] st = ([], st)"
| "alertRun notificationAllowed (ev # evs) st =
     (case alertStep notificationAllowed ev st of
        (fired, st1) \<Rightarrow>
          (case alertRun notificationAllowed evs st1 of
             (fired', st2) \<Rightarrow> (fired @ fired', st2)))"

text \<open>The triggered flags stored under an id.\<close>

definition flagsOf :: "int \<Rightarrow> App \<Rightarrow> int list" where
  "flagsOf i app =
     (case dbRef app of
        None \<Rightarrow> []
      | Some db \<Rightarrow> map alert_triggered (filter (\<lambda>r. alert_id r = i) (price_alerts db)))"

text \<open>Ids are unique and none exceeds the last id given out.\<close>

definition alerts_wf :: "App \<Rightarrow> bool" where
  "alerts_wf app \<longleftrightarrow>
     (case dbRef app of
        None \<Rightarrow> True
      | Some db \<Rightarrow> distinct (map alert_id (price_alerts db))
                 \<and> list_all (\<lambda>r. alert_id r \<le> price_alerts_seq db) (price_alerts db))"

text \<open>
  What the evaluator and the user's actions maintain for an id \<open>i\<close> that has been given
  out: ids stay unique and bounded by the last id given out, and a stored row with the
  id \<open>i\<close> is triggered.
\<close>

definition latch_inv :: "int \<Rightarrow> Database \<Rightarrow> bool" where
  "latch_inv i db \<longleftrightarrow>
     distinct (map alert_id (price_alerts db))
   \<and> list_all (\<lambda>r. alert_id r \<le> price_alerts_seq db) (price_alerts db)
   \<and> i \<le> price_alerts_seq db
   \<and> list_all (\<lambda>r. alert_id r = i \<longrightarrow> alert_triggered r = 1) (price_alerts db)"

definition app_inv :: "int \<Rightarrow> App \<Rightarrow> bool" where
  "app_inv i app \<longleftrightarrow> (case dbRef app of None \<Rightarrow> True | Some db \<Rightarrow> latch_inv i db)"

section \<open>Example stores\<close>

text \<open>A history at its cap: 60 rows of one symbol, with the timestamps 1 to 60.\<close>

definition fullHistory :: Database where
  "fullHistory =
     \<lparr>price_updates =
        map (\<lambda>i. \<lparr>row_id = int i, row_symbol = ''AAPL'', row_price = 100,
                   row_timestamp = real i\<rparr>) [1 ..< 61],
      price_updates_seq = 60, price_alerts = [], price_alerts_seq = 0\<rparr>"

text \<open>Twenty alerts of one symbol, those with the ids 3 and 7 already triggered.\<close>

definition fullAlerts :: Database where
  "fullAlerts =
     \<lparr>price_updates = [], price_updates_seq = 0,
      price_alerts =
        map (\<lambda>i. \<lparr>alert_id = int i, alert_symbol = ''AAPL'', alert_direction = ''above'',
                   alert_price = Some (100 + real i),
                   alert_triggered = (if i = 3 \<or> i = 7 then 1 else 0)\<rparr>) [1 ..< 21],
      price_alerts_seq = 20\<rparr>"

text \<open>One untriggered alert: AAPL at or above 100.\<close>

definition oneAlert :: Database where
  "oneAlert =
     \<lparr>price_updates = [], price_updates_seq = 0,
      price_alerts =
        [\<lparr>alert_id = 1, alert_symbol = ''AAPL'', alert_direction = ''above'',
          alert_price = Some 100, alert_triggered = 0\<rparr>],
      price_alerts_seq = 1\<rparr>"

definition tick :: "string \<Rightarrow> real \<Rightarrow> real \<Rightarrow> PriceUpdate" where
  "tick symb ts pr =
     \<lparr>price = pr, timestamp = ts, key = mkKey showInt symb ts pr, symbol = symb\<rparr>"


section \<open>Basic facts\<close>

lemma dbRef_loadAlerts [simp]: "dbRef (loadAlerts symb app) = dbRef app"
  by (simp add: loadAlerts_def split: option.splits)

section \<open>Properties of the analytics\<close>



text \<open>
  Claim C4. On the empty sequence \<^verbatim>\<open>computeMetrics\<close> returns change 0, percentage 0 and
  no basis and no latest price. On a non-empty newest-first sequence the latest price is
  that of element 0, the basis is the price of the last element, the change is their
  difference, and the percentage is 0 for a zero basis and change / basis * 100 otherwise.
\<close>

theorem computeMetrics_spec:
  "computeMetrics [] = \<lparr>change = 0, percentage = 0, basis = None, latest = None\<rparr>
   \<and> (entries \<noteq> [] \<longrightarrow>
        latest (computeMetrics entries) = Some (price (entries ! 0))
      \<and> basis (computeMetrics entries) = Some (price (last entries))
      \<and> change (computeMetrics entries) = price (entries ! 0) - price (last entries)
      \<and> percentage (computeMetrics entries) =
          (if price (last entries) = 0 then 0
           else (change (computeMetrics entries) / price (last entries)) * 100))"
  by (simp add: computeMetrics_def Let_def last_conv_nth)

theorem computeMetrics_spec_witness:
  "[\<lparr>price = 110, timestamp = 2000\<rparr>, \<lparr>price = 100, timestamp = 1000\<rparr>] \<noteq> []
   \<and> computeMetrics [\<lparr>price = 110, timestamp = 2000\<rparr>, \<lparr>price = 100, timestamp = 1000\<rparr>]
       = \<lparr>change = 10, percentage = 10, basis = Some 100, latest = Some 110\<rparr>"
  using computeMetrics_spec
    [of "[\<lparr>price = 110, timestamp = 2000\<rparr>, \<lparr>price = 100, timestamp = 1000\<rparr>]"]
  by (simp add: computeMetrics_def)



section \<open>Properties of the tick buffer\<close>










section \<open>Properties of the capped tables\<close>

text \<open>
  Both prune statements delete, among the selected rows, those outside the first \<open>n\<close> of
  an ordering. With unique ids the selected rows that remain are exactly these first \<open>n\<close>.
\<close>

lemma prune_kept_set:
  assumes "distinct (map idf T)"
  shows "set (filter sel (filter (\<lambda>r. \<not> (sel r \<and> idf r \<notin> set (map idf (take n (sort_key k (filter sel T)))))) T))
         = set (take n (sort_key k (filter sel T)))"
proof -
  define S where "S = sort_key k (filter sel T)"
  have inj: "inj_on idf (set T)"
    using assms by (simp add: distinct_map)
  have sub: "set (take n S) \<subseteq> set (filter sel T)"
    using set_take_subset [of n S] unfolding S_def by simp
  have "\<And>r. r \<in> set T \<Longrightarrow> sel r \<Longrightarrow> idf r \<in> idf ` set (take n S) \<Longrightarrow> r \<in> set (take n S)"
  proof -
    fix r assume r: "r \<in> set T" "sel r" "idf r \<in> idf ` set (take n S)"
    then obtain q where q: "q \<in> set (take n S)" "idf r = idf q" by blast
    with sub have "q \<in> set T" by auto
    with inj r(1) q(2) have "r = q" by (simp add: inj_on_def)
    with q(1) show "r \<in> set (take n S)" by simp
  qed
  with sub show ?thesis
    unfolding S_def [symmetric] by auto
qed

lemma prune_kept_length:
  assumes "distinct (map idf T)"
  shows "length (filter sel (filter (\<lambda>r. \<not> (sel r \<and> idf r \<notin> set (map idf (take n (sort_key k (filter sel T)))))) T))
         = min n (length (filter sel T))"
proof -
  define S where "S = sort_key k (filter sel T)"
  define R where "R = filter sel (filter (\<lambda>r. \<not> (sel r \<and> idf r \<notin> set (map idf (take n S)))) T)"
  have dT: "distinct T"
    using assms by (simp add: distinct_map)
  then have dS: "distinct S"
    unfolding S_def by simp
  have dR: "distinct R"
    unfolding R_def using dT by simp
  have "set R = set (take n S)"
    unfolding R_def S_def using assms by (rule prune_kept_set)
  then have "card (set R) = card (set (take n S))"
    by simp
  then have "length R = length (take n S)"
    using dR dS by (simp add: distinct_card)
  then show ?thesis
    unfolding R_def S_def by simp
qed

lemma sorted_take_drop:
  assumes "a \<in> set (take n (sort_key k xs))" and "b \<in> set (drop n (sort_key k xs))"
  shows "k a \<le> k b"
proof -
  define S where "S = sort_key k xs"
  have "sorted (map k (take n S @ drop n S))"
    unfolding S_def by simp
  then have "\<forall>x \<in> set (map k (take n S)). \<forall>y \<in> set (map k (drop n S)). x \<le> y"
    unfolding map_append sorted_append by blast
  with assms show ?thesis
    unfolding S_def by auto
qed

lemma prune_gone_in_drop:
  assumes "r \<in> set xs" and "r \<notin> set (take n (sort_key k xs))"
  shows "r \<in> set (drop n (sort_key k xs))"
proof -
  have "set (take n (sort_key k xs) @ drop n (sort_key k xs)) = set xs"
    by simp
  with assms show ?thesis
    unfolding set_append by blast
qed

text \<open>
  Claim C7. When the stored history of the update's symbol holds exactly as many rows as
  the limit \<open>M\<close> of the prune (60 in \<^verbatim>\<open>persistUpdate\<close> of the current application),
  persisting an update leaves exactly \<open>M\<close> rows for the symbol; they are taken from the
  former rows and the inserted one, and every row that was dropped is at most as recent
  as every row that was kept.
\<close>

theorem persistUpdate_prunes_to_cap:
  assumes db: "dbRef app = Some db"
    and ids: "distinct (map row_id (price_updates db))"
    and seq: "list_all (\<lambda>r. row_id r \<le> price_updates_seq db) (price_updates db)"
    and full: "length (historyOf (symbol update) app) = M"
  shows "length (historyOf (symbol update) (persistUpdateWith M update app)) = M
       \<and> set (historyOf (symbol update) (persistUpdateWith M update app))
           \<subseteq> set (historyOf (symbol update) app)
             \<union> {\<lparr>row_id = price_updates_seq db + 1, row_symbol = symbol update,
                  row_price = price update, row_timestamp = timestamp update\<rparr>}
       \<and> (\<forall>kept \<in> set (historyOf (symbol update) (persistUpdateWith M update app)).
           \<forall>gone \<in> (set (historyOf (symbol update) app)
                       \<union> {\<lparr>row_id = price_updates_seq db + 1, row_symbol = symbol update,
                            row_price = price update, row_timestamp = timestamp update\<rparr>})
                     - set (historyOf (symbol update) (persistUpdateWith M update app)).
             row_timestamp gone \<le> row_timestamp kept)"
proof -
  define new where
    "new = \<lparr>row_id = price_updates_seq db + 1, row_symbol = symbol update,
            row_price = price update, row_timestamp = timestamp update\<rparr>"
  define T where "T = price_updates db @ [new]"
  define sel where "sel = (\<lambda>r::UpdateRow. row_symbol r = symbol update)"
  define k where "k = (\<lambda>r::UpdateRow. - row_timestamp r)"
  define S where "S = sort_key k (filter sel T)"
  define R where
    "R = filter sel (filter (\<lambda>r. \<not> (sel r \<and> row_id r \<notin> set (map row_id (take M S)))) T)"
  have old: "historyOf (symbol update) app = filter sel (price_updates db)"
    using db by (simp add: historyOf_def sel_def)
  have after: "historyOf (symbol update) (persistUpdateWith M update app) = R"
    using db
    by (simp add: historyOf_def persistUpdateWith_def pruneUpdates_def insertUpdate_def
        Let_def R_def S_def T_def sel_def k_def new_def)
  have fresh: "row_id new \<notin> row_id ` set (price_updates db)"
  proof
    assume "row_id new \<in> row_id ` set (price_updates db)"
    then obtain r where r: "r \<in> set (price_updates db)" "row_id r = row_id new" by auto
    from r(1) seq have "row_id r \<le> price_updates_seq db"
      unfolding list_all_iff by blast
    with r(2) show False by (simp add: new_def)
  qed
  have dT: "distinct (map row_id T)"
    using ids fresh by (simp add: T_def)
  have selT: "filter sel T = filter sel (price_updates db) @ [new]"
    by (simp add: T_def sel_def new_def)
  have lenT: "length (filter sel T) = Suc M"
    using full old selT by simp
  have setR: "set R = set (take M S)"
    unfolding R_def S_def using dT by (rule prune_kept_set)
  have "length R = min M (length (filter sel T))"
    unfolding R_def S_def using dT by (rule prune_kept_length)
  with lenT have len: "length R = M"
    by simp
  have sub: "set R \<subseteq> set (filter sel (price_updates db)) \<union> {new}"
  proof -
    have "set (take M S) \<subseteq> set S"
      by (rule set_take_subset)
    also have "set S = set (filter sel T)"
      by (simp add: S_def)
    finally show ?thesis
      using setR selT by auto
  qed
  have ord: "row_timestamp gone \<le> row_timestamp kept"
    if kept: "kept \<in> set R"
      and gone: "gone \<in> (set (filter sel (price_updates db)) \<union> {new}) - set R"
    for kept gone
  proof -
    from gone have "gone \<in> set (filter sel T)" "gone \<notin> set (take M S)"
      using selT setR by auto
    then have g: "gone \<in> set (drop M (sort_key k (filter sel T)))"
      unfolding S_def by (rule prune_gone_in_drop)
    from kept have kp: "kept \<in> set (take M (sort_key k (filter sel T)))"
      using setR by (simp add: S_def)
    from kp g have "k kept \<le> k gone"
      by (rule sorted_take_drop)
    then show ?thesis
      by (simp add: k_def)
  qed
  show ?thesis
    unfolding after old new_def [symmetric]
    using len sub ord by blast
qed

text \<open>
  Claim C10. Saving a valid alert when the active symbol already has 20 stored alerts
  reports no error and leaves 20 alerts for the symbol. The new alert is among them and
  exactly one former alert is deleted; every deleted alert is triggered where a kept one
  is not, or has the same triggered flag and a lower id than the kept one.
\<close>

theorem handleSaveAlert_prunes:
  assumes db: "dbRef app = Some db"
    and ids: "distinct (map alert_id (price_alerts db))"
    and seq: "list_all (\<lambda>r. alert_id r \<le> price_alerts_seq db) (price_alerts db)"
    and flags: "list_all (\<lambda>r. 0 \<le> alert_triggered r) (price_alerts db)"
    and full: "length (alertsOf (activeSymbol app) app) = ALERT_MAX_ITEMS"
    and pos: "0 < pr"
  shows "alertError (handleSaveAlert dir (Some pr) app) = None
       \<and> length (alertsOf (activeSymbol app) (handleSaveAlert dir (Some pr) app)) = ALERT_MAX_ITEMS
       \<and> \<lparr>alert_id = price_alerts_seq db + 1, alert_symbol = activeSymbol app,
           alert_direction = directionText dir, alert_price = Some pr, alert_triggered = 0\<rparr>
           \<in> set (alertsOf (activeSymbol app) (handleSaveAlert dir (Some pr) app))
       \<and> card (set (alertsOf (activeSymbol app) app)
                - set (alertsOf (activeSymbol app) (handleSaveAlert dir (Some pr) app))) = 1
       \<and> (\<forall>kept \<in> set (alertsOf (activeSymbol app) (handleSaveAlert dir (Some pr) app)).
           \<forall>gone \<in> set (alertsOf (activeSymbol app) app)
                     - set (alertsOf (activeSymbol app) (handleSaveAlert dir (Some pr) app)).
             alert_triggered kept < alert_triggered gone
           \<or> (alert_triggered kept = alert_triggered gone \<and> alert_id gone < alert_id kept))"
proof -
  define new where
    "new = \<lparr>alert_id = price_alerts_seq db + 1, alert_symbol = activeSymbol app,
            alert_direction = directionText dir, alert_price = Some pr, alert_triggered = 0\<rparr>"
  define T where "T = price_alerts db @ [new]"
  define sel where "sel = (\<lambda>r::AlertRow. alert_symbol r = activeSymbol app)"
  define k where "k = (\<lambda>r::AlertRow. (alert_triggered r, - alert_id r))"
  define S where "S = sort_key k (filter sel T)"
  define R where
    "R = filter sel (filter (\<lambda>r. \<not> (sel r \<and> alert_id r \<notin> set (map alert_id (take ALERT_MAX_ITEMS S)))) T)"
  define old where "old = filter sel (price_alerts db)"
  have old: "alertsOf (activeSymbol app) app = old"
    using db by (simp add: alertsOf_def sel_def old_def)
  have after: "alertsOf (activeSymbol app) (handleSaveAlert dir (Some pr) app) = R"
    using db pos
    by (simp add: alertsOf_def handleSaveAlert_def pruneAlerts_def insertAlert_def
        Let_def R_def S_def T_def sel_def k_def new_def)
  have below: "alert_id r \<le> price_alerts_seq db" if "r \<in> set (price_alerts db)" for r
    using that seq unfolding list_all_iff by blast
  have nonneg: "0 \<le> alert_triggered r" if "r \<in> set (price_alerts db)" for r
    using that flags unfolding list_all_iff by blast
  have fresh: "alert_id new \<notin> alert_id ` set (price_alerts db)"
  proof
    assume "alert_id new \<in> alert_id ` set (price_alerts db)"
    then obtain r where r: "r \<in> set (price_alerts db)" "alert_id r = alert_id new" by auto
    from below [OF r(1)] r(2) show False by (simp add: new_def)
  qed
  have dT: "distinct (map alert_id T)"
    using ids fresh by (simp add: T_def)
  then have injT: "inj_on alert_id (set T)" and dTT: "distinct T"
    by (simp_all add: distinct_map)
  have selT: "filter sel T = old @ [new]"
    by (simp add: T_def sel_def new_def old_def)
  have new_old: "new \<notin> set old"
    using fresh by (auto simp add: old_def)
  have d_old: "distinct old"
    using dTT by (simp add: old_def T_def)
  have lenT: "length (filter sel T) = Suc ALERT_MAX_ITEMS"
    using full old selT by simp
  have setS: "set S = set old \<union> {new}"
    using selT by (simp add: S_def)
  have dS: "distinct S"
    using dTT by (simp add: S_def)
  have lenS: "length S = Suc ALERT_MAX_ITEMS"
    using lenT by (simp add: S_def)
  have setR: "set R = set (take ALERT_MAX_ITEMS S)"
    unfolding R_def S_def using dT by (rule prune_kept_set)
  have "length R = min ALERT_MAX_ITEMS (length (filter sel T))"
    unfolding R_def S_def using dT by (rule prune_kept_length)
  with lenT have len: "length R = ALERT_MAX_ITEMS"
    by simp
  have dR: "distinct R"
    using dTT by (simp add: R_def)
  have subR: "set R \<subseteq> set old \<union> {new}"
    using setR setS set_take_subset [of ALERT_MAX_ITEMS S] by simp
  have strict: "k new < k a" if "a \<in> set old" for a
  proof -
    from that have a: "a \<in> set (price_alerts db)"
      by (simp add: old_def)
    from below [OF a] nonneg [OF a] show ?thesis
      by (auto simp add: k_def new_def less_prod_def)
  qed
  have new_in: "new \<in> set R"
  proof (rule ccontr)
    assume "new \<notin> set R"
    then have out: "new \<notin> set (take ALERT_MAX_ITEMS (sort_key k (filter sel T)))"
      using setR by (simp add: S_def)
    have "new \<in> set (filter sel T)"
      using selT by simp
    from this out have g: "new \<in> set (drop ALERT_MAX_ITEMS (sort_key k (filter sel T)))"
      by (rule prune_gone_in_drop)
    have "take ALERT_MAX_ITEMS S \<noteq> []"
      using lenS by (auto simp add: ALERT_MAX_ITEMS_def)
    then obtain a where a: "a \<in> set (take ALERT_MAX_ITEMS S)"
      by (cases "take ALERT_MAX_ITEMS S") auto
    then have a': "a \<in> set (take ALERT_MAX_ITEMS (sort_key k (filter sel T)))"
      by (simp add: S_def)
    from a' g have le: "k a \<le> k new"
      by (rule sorted_take_drop)
    from a setR \<open>new \<notin> set R\<close> subR have "a \<in> set old"
      by auto
    from strict [OF this] le show False
      by simp
  qed
  have card1: "card (set old - set R) = 1"
  proof -
    have eq: "set old - set R = set old - (set R - {new})"
      using new_old by auto
    have sub: "set R - {new} \<subseteq> set old"
      using subR by auto
    have cR: "card (set R - {new}) = ALERT_MAX_ITEMS - 1"
      using new_in dR len by (simp add: distinct_card)
    have cO: "card (set old) = ALERT_MAX_ITEMS"
      using d_old full old by (simp add: distinct_card)
    have "card (set old - (set R - {new})) = card (set old) - card (set R - {new})"
      using sub by (intro card_Diff_subset) auto
    with eq cR cO show ?thesis
      by (simp add: ALERT_MAX_ITEMS_def)
  qed
  have ord: "alert_triggered kept < alert_triggered gone
           \<or> (alert_triggered kept = alert_triggered gone \<and> alert_id gone < alert_id kept)"
    if kept: "kept \<in> set R" and gone: "gone \<in> set old - set R" for kept gone
  proof -
    from gone have gT: "gone \<in> set (filter sel T)"
      and "gone \<notin> set (take ALERT_MAX_ITEMS (sort_key k (filter sel T)))"
      using selT setR by (auto simp add: S_def)
    then have g: "gone \<in> set (drop ALERT_MAX_ITEMS (sort_key k (filter sel T)))"
      by (rule prune_gone_in_drop)
    from kept have kp: "kept \<in> set (take ALERT_MAX_ITEMS (sort_key k (filter sel T)))"
      using setR by (simp add: S_def)
    from kp g have le: "k kept \<le> k gone"
      by (rule sorted_take_drop)
    have kT: "kept \<in> set T"
      using kept by (simp add: R_def)
    have "kept \<noteq> gone"
      using kept gone by auto
    with injT kT gT have "alert_id kept \<noteq> alert_id gone"
      by (auto simp add: inj_on_def)
    with le show ?thesis
      by (auto simp add: k_def less_eq_prod_def)
  qed
  have silent: "alertError (handleSaveAlert dir (Some pr) app) = None"
    using db pos by (simp add: handleSaveAlert_def Let_def)
  show ?thesis
    unfolding after old new_def [symmetric]
    using silent len new_in card1 ord by blast
qed

section \<open>Properties of the session\<close>

lemma timer_inv_cong:
  "reconnectTimerRef a = reconnectTimerRef b \<Longrightarrow> timers a = timers b
     \<Longrightarrow> timer_inv a = timer_inv b"
  by (simp add: timer_inv_def split: option.splits)

lemma timer_inv_connect:
  "timer_inv (connect tok k app) = timer_inv app"
  by (rule timer_inv_cong) (simp_all add: connect_def)

lemma timer_inv_cleared:
  assumes "timer_inv app"
  shows "timer_inv (case reconnectTimerRef app of
                      None \<Rightarrow> app
                    | Some h \<Rightarrow> if h \<noteq> 0
                                then (clearTimeout h app)\<lparr>reconnectTimerRef := None\<rparr>
                                else app)"
proof (cases "reconnectTimerRef app")
  case None
  with assms show ?thesis by simp
next
  case (Some h)
  with assms have h: "h \<noteq> 0" and ids: "map timer_id (timers app) = [h]"
    by (simp_all add: timer_inv_def)
  from ids obtain t where t: "timers app = [t]" "timer_id t = h"
    by (cases "timers app") auto
  then have "timers (clearTimeout h app) = []"
    by (simp add: clearTimeout_def)
  with Some h show ?thesis
    by (simp add: timer_inv_def)
qed

lemma timer_inv_sessions [simp]:
  "timer_inv (app\<lparr>sessions := x\<rparr>) = timer_inv app"
  by (rule timer_inv_cong) simp_all

lemma timer_inv_wsRef [simp]:
  "timer_inv (app\<lparr>wsRef := x\<rparr>) = timer_inv app"
  by (rule timer_inv_cong) simp_all

lemma timer_inv_status [simp]:
  "timer_inv (app\<lparr>connectionStatus := x\<rparr>) = timer_inv app"
  by (rule timer_inv_cong) simp_all

lemma timer_inv_errorMessage [simp]:
  "timer_inv (app\<lparr>errorMessage := x\<rparr>) = timer_inv app"
  by (rule timer_inv_cong) simp_all

lemma timer_inv_closeSocket [simp]:
  "timer_inv (closeSocket n app) = timer_inv app"
  by (rule timer_inv_cong) (simp_all add: closeSocket_def)

lemma timer_inv_closeCurrent:
  "timer_inv app \<Longrightarrow>
   timer_inv (case wsRef app of None \<Rightarrow> app | Some n \<Rightarrow> (closeSocket n app)\<lparr>wsRef := None\<rparr>)"
  by (simp split: option.splits)

lemma timer_inv_closeCurrent':
  "timer_inv app \<Longrightarrow>
   timer_inv (case wsRef app of None \<Rightarrow> app | Some n \<Rightarrow> closeSocket n app)"
  by (simp split: option.splits)

lemma timer_inv_startSession:
  assumes "timer_inv app"
  shows "timer_inv (startSession tok app)"
proof -
  define app1 where
    "app1 = app\<lparr>sessions := sessions app @
              [\<lparr>manualClose = False, symbolForSession = activeSymbol app\<rparr>]\<rparr>"
  have i1: "timer_inv app1"
    using assms by (simp add: app1_def)
  show ?thesis
  proof (cases "hasToken tok")
    case True
    then show ?thesis
      using i1 by (simp add: startSession_def Let_def app1_def [symmetric] timer_inv_connect)
  next
    case False
    from i1 have "timer_inv (case reconnectTimerRef app1 of
                      None \<Rightarrow> app1
                    | Some h \<Rightarrow> if h \<noteq> 0
                                then (clearTimeout h app1)\<lparr>reconnectTimerRef := None\<rparr>
                                else app1)"
      by (rule timer_inv_cleared)
    then have "timer_inv (case wsRef (case reconnectTimerRef app1 of
                      None \<Rightarrow> app1
                    | Some h \<Rightarrow> if h \<noteq> 0
                                then (clearTimeout h app1)\<lparr>reconnectTimerRef := None\<rparr>
                                else app1) of None \<Rightarrow> (case reconnectTimerRef app1 of
                      None \<Rightarrow> app1
                    | Some h \<Rightarrow> if h \<noteq> 0
                                then (clearTimeout h app1)\<lparr>reconnectTimerRef := None\<rparr>
                                else app1) | Some n \<Rightarrow> (closeSocket n (case reconnectTimerRef app1 of
                      None \<Rightarrow> app1
                    | Some h \<Rightarrow> if h \<noteq> 0
                                then (clearTimeout h app1)\<lparr>reconnectTimerRef := None\<rparr>
                                else app1))\<lparr>wsRef := None\<rparr>)"
      by (rule timer_inv_closeCurrent)
    with False show ?thesis
      unfolding startSession_def Let_def app1_def [symmetric] by simp
  qed
qed

lemma timer_inv_cleanupSession:
  assumes "timer_inv app"
  shows "timer_inv (cleanupSession tok k app)"
proof (cases "k < length (sessions app)")
  case False
  with assms show ?thesis by (simp add: cleanupSession_def)
next
  case True
  define app1 where
    "app1 = app\<lparr>sessions := (sessions app)[k := (sessions app ! k)\<lparr>manualClose := True\<rparr>]\<rparr>"
  have i1: "timer_inv app1"
    using assms by (simp add: app1_def)
  define app2 where
    "app2 = (case reconnectTimerRef app1 of
                      None \<Rightarrow> app1
                    | Some h \<Rightarrow> if h \<noteq> 0
                                then (clearTimeout h app1)\<lparr>reconnectTimerRef := None\<rparr>
                                else app1)"
  have i2: "timer_inv app2"
    unfolding app2_def using i1 by (rule timer_inv_cleared)
  then have "timer_inv (case wsRef app2 of None \<Rightarrow> app2 | Some n \<Rightarrow> closeSocket n app2)"
    by (rule timer_inv_closeCurrent')
  with True i1 show ?thesis
    unfolding cleanupSession_def Let_def app1_def [symmetric] app2_def [symmetric] by simp
qed

lemma timer_inv_ws_onopen:
  "timer_inv (ws_onopen n app) = timer_inv app"
  by (rule timer_inv_cong) (simp_all add: ws_onopen_def Let_def)

lemma timer_inv_ws_onmessage:
  "timer_inv (fst (ws_onmessage numStr n data app)) = timer_inv app"
  by (rule timer_inv_cong) (simp_all add: ws_onmessage_def Let_def split: prod.splits)

lemma timer_inv_ws_onerror:
  "timer_inv (ws_onerror n app) = timer_inv app"
  by (rule timer_inv_cong) (simp_all add: ws_onerror_def)

lemma scheduleReconnect_fresh:
  assumes "k < length (sessions app)" and "\<not> manualClose (sessions app ! k)"
    and "reconnectTimerRef app = None"
  shows "timers (scheduleReconnect k app)
           = timers app @ [\<lparr>timer_id = timerSeq app + 1, timer_session = k, timer_delay = 3000\<rparr>]
       \<and> reconnectTimerRef (scheduleReconnect k app) = Some (timerSeq app + 1)"
  using assms by (simp add: scheduleReconnect_def timerSet_def setTimeout_def Let_def)

lemma scheduleReconnect_pending:
  assumes "timerSet app"
  shows "scheduleReconnect k app = app"
  using assms by (simp add: scheduleReconnect_def)

lemma timer_inv_scheduleReconnect:
  assumes "timer_inv app"
  shows "timer_inv (scheduleReconnect k app)"
proof (cases "k < length (sessions app) \<and> \<not> manualClose (sessions app ! k) \<and> \<not> timerSet app")
  case False
  with assms show ?thesis
    by (auto simp add: scheduleReconnect_def)
next
  case True
  with assms have none: "reconnectTimerRef app = None"
    by (auto simp add: timerSet_def timer_inv_def split: option.splits)
  with assms have "timers app = []"
    by (simp add: timer_inv_def)
  with True none scheduleReconnect_fresh [of k app] show ?thesis
    by (simp add: timer_inv_def)
qed

lemma timer_inv_ws_onclose:
  assumes "timer_inv app"
  shows "timer_inv (ws_onclose n app)"
proof -
  have "timer_inv (app\<lparr>connectionStatus := Closed\<rparr>)"
    using assms by simp
  then have "timer_inv (scheduleReconnect k (app\<lparr>connectionStatus := Closed\<rparr>))" for k
    by (rule timer_inv_scheduleReconnect)
  with assms show ?thesis
    by (simp add: ws_onclose_def Let_def)
qed

lemma timer_inv_timerFires:
  assumes "timer_inv app"
  shows "timer_inv (timerFires tok h app)"
proof (cases "find (\<lambda>t. timer_id t = h) (timers app)")
  case None
  with assms show ?thesis by (simp add: timerFires_def)
next
  case (Some t)
  then have tin: "t \<in> set (timers app)" and tid: "timer_id t = h"
    by (auto simp add: find_Some_iff)
  from tin assms obtain h' where ref: "reconnectTimerRef app = Some h'"
    by (cases "reconnectTimerRef app") (auto simp add: timer_inv_def)
  with assms have ids: "map timer_id (timers app) = [h']"
    by (simp add: timer_inv_def)
  with tin tid have "timers app = [t]" "h' = h"
    by (cases "timers app"; auto)+
  then have "timers (clearTimeout h app) = []"
    using tid by (simp add: clearTimeout_def)
  then have "timer_inv ((clearTimeout h app)\<lparr>reconnectTimerRef := None\<rparr>)"
    by (simp add: timer_inv_def)
  then show ?thesis
    using Some by (simp add: timerFires_def reconnectCallback_def timer_inv_connect)
qed

lemma timer_inv_applySymbol:
  "timer_inv (applySymbol s app) = timer_inv app"
  by (rule timer_inv_cong) (simp_all add: applySymbol_def Let_def)

lemma timer_inv_sessionStep:
  "timer_inv app \<Longrightarrow> timer_inv (sessionStep tok numStr app ev)"
  by (cases ev)
    (simp_all add: timer_inv_startSession timer_inv_cleanupSession timer_inv_ws_onopen
      timer_inv_ws_onmessage timer_inv_ws_onerror timer_inv_ws_onclose timer_inv_timerFires
      timer_inv_applySymbol)

lemma timer_inv_sessionRun:
  "timer_inv app \<Longrightarrow> timer_inv (sessionRun tok numStr evs app)"
  unfolding sessionRun_def
  by (induction evs arbitrary: app) (simp_all add: timer_inv_sessionStep)

lemma timer_inv_initialApp: "timer_inv initialApp"
  by (simp add: timer_inv_def initialApp_def)

lemma timer_inv_length:
  "timer_inv app \<Longrightarrow> length (timers app) \<le> 1"
  by (cases "reconnectTimerRef app") (auto simp add: timer_inv_def dest: map_eq_imp_length_eq)

lemma timer_inv_nonempty:
  assumes "timer_inv app" and "timers app \<noteq> []"
  shows "timerSet app"
  using assms by (cases "reconnectTimerRef app") (auto simp add: timer_inv_def timerSet_def)

lemma ws_onclose_pending:
  assumes "timerSet app"
  shows "timers (ws_onclose m app) = timers app"
proof -
  have "timerSet (app\<lparr>connectionStatus := Closed\<rparr>)"
    using assms by (simp add: timerSet_def)
  then have "scheduleReconnect k (app\<lparr>connectionStatus := Closed\<rparr>) = app\<lparr>connectionStatus := Closed\<rparr>" for k
    by (rule scheduleReconnect_pending)
  then show ?thesis
    by (simp add: ws_onclose_def Let_def)
qed

text \<open>
  Claim C6. In every state a session can reach, at most one reconnect timer is pending.
  When a socket of a run that was not closed manually closes and no timer is pending,
  exactly one timer is scheduled, with a delay of 3000 ms; a further close event then
  leaves the pending timers as they are.
\<close>

theorem reconnect_single_timer:
  assumes reach: "app = sessionRun tok numStr evs initialApp"
  shows "length (timers app) \<le> 1
       \<and> (n < length (sockets app)
          \<and> sock_session (sockets app ! n) < length (sessions app)
          \<and> \<not> manualClose (sessions app ! sock_session (sockets app ! n))
          \<and> timers app = []
          \<longrightarrow> timers (ws_onclose n app)
                = [\<lparr>timer_id = timerSeq app + 1,
                    timer_session = sock_session (sockets app ! n), timer_delay = 3000\<rparr>]
            \<and> timers (ws_onclose m (ws_onclose n app)) = timers (ws_onclose n app))
       \<and> (timers app \<noteq> [] \<longrightarrow> timers (ws_onclose m app) = timers app)"
proof -
  have inv: "timer_inv app"
    unfolding reach using timer_inv_initialApp by (rule timer_inv_sessionRun)
  have a: "length (timers app) \<le> 1"
    using inv by (rule timer_inv_length)
  have c: "timers (ws_onclose m app) = timers app" if "timers app \<noteq> []"
    using inv that by (intro ws_onclose_pending timer_inv_nonempty)
  have b: "timers (ws_onclose n app)
                = [\<lparr>timer_id = timerSeq app + 1,
                    timer_session = sock_session (sockets app ! n), timer_delay = 3000\<rparr>]
            \<and> timers (ws_onclose m (ws_onclose n app)) = timers (ws_onclose n app)"
    if n: "n < length (sockets app)"
      and k: "sock_session (sockets app ! n) < length (sessions app)"
      and live: "\<not> manualClose (sessions app ! sock_session (sockets app ! n))"
      and none: "timers app = []"
  proof -
    from inv none have ref: "reconnectTimerRef app = None"
      by (cases "reconnectTimerRef app") (auto simp add: timer_inv_def)
    have first: "timers (ws_onclose n app)
                = [\<lparr>timer_id = timerSeq app + 1,
                    timer_session = sock_session (sockets app ! n), timer_delay = 3000\<rparr>]"
      using n k live none ref
        scheduleReconnect_fresh [of "sock_session (sockets app ! n)" "app\<lparr>connectionStatus := Closed\<rparr>"]
      by (simp add: ws_onclose_def Let_def)
    have "timer_inv (ws_onclose n app)"
      using inv by (rule timer_inv_ws_onclose)
    moreover have "timers (ws_onclose n app) \<noteq> []"
      using first by simp
    ultimately have "timerSet (ws_onclose n app)"
      by (rule timer_inv_nonempty)
    then have "timers (ws_onclose m (ws_onclose n app)) = timers (ws_onclose n app)"
      by (rule ws_onclose_pending)
    with first show ?thesis by simp
  qed
  from a b c show ?thesis by blast
qed

theorem reconnect_single_timer_witness:
  "timers (sessionRun ''token'' showInt [EffectRun, WsOpen 0] initialApp) = []
   \<and> timers (ws_onclose 0 (sessionRun ''token'' showInt [EffectRun, WsOpen 0] initialApp))
       = [\<lparr>timer_id = 1, timer_session = 0, timer_delay = 3000\<rparr>]
   \<and> timers (ws_onclose 0 (ws_onclose 0
         (sessionRun ''token'' showInt [EffectRun, WsOpen 0] initialApp)))
       = [\<lparr>timer_id = 1, timer_session = 0, timer_delay = 3000\<rparr>]"
proof -
  define app where "app = sessionRun ''token'' showInt [EffectRun, WsOpen 0] initialApp"
  have s: "sockets app = [\<lparr>sock_session = 0, sock_sent = [''AAPL''], sock_closeCalled = False\<rparr>]"
    and t: "timers app = []" and q: "timerSeq app = 0"
    and m: "sessions app = [\<lparr>manualClose = False, symbolForSession = ''AAPL''\<rparr>]"
    unfolding app_def
    by (simp_all add: sessionRun_def startSession_def hasToken_def connect_def ws_onopen_def
        initialApp_def DEFAULT_SYMBOL_def Let_def)
  from reconnect_single_timer [of app "''token''" showInt "[EffectRun, WsOpen 0]" 0 0]
  show ?thesis
    unfolding app_def [symmetric] using s t q m by simp
qed

lemma idle_startSession:
  assumes "\<not> hasToken tok"
    and "sockets app = []" "timers app = []" "reconnectTimerRef app = None" "wsRef app = None"
  shows "idle (startSession tok app)"
  using assms by (simp add: idle_def startSession_def Let_def)

lemma idle_sessionStep:
  assumes "\<not> hasToken tok" and "idle app"
  shows "idle (sessionStep tok numStr app ev)"
proof (cases ev)
  case EffectRun
  from assms have "idle (startSession tok app)"
    by (intro idle_startSession) (simp_all add: idle_def)
  with EffectRun show ?thesis
    by simp
next
  case (EffectCleanup k)
  with assms show ?thesis
    by (simp add: idle_def cleanupSession_def Let_def)
next
  case (WsOpen n)
  with assms show ?thesis by (simp add: idle_def ws_onopen_def)
next
  case (WsMessage n data)
  with assms show ?thesis by (simp add: idle_def ws_onmessage_def)
next
  case (WsError n)
  with assms show ?thesis by (simp add: idle_def ws_onerror_def)
next
  case (WsClose n)
  with assms show ?thesis by (simp add: idle_def ws_onclose_def)
next
  case (TimerFires h)
  with assms show ?thesis by (simp add: idle_def timerFires_def)
next
  case (ApplySymbol s)
  with assms show ?thesis by (simp add: idle_def applySymbol_def Let_def)
qed

lemma idle_sessionRun:
  "\<not> hasToken tok \<Longrightarrow> idle app \<Longrightarrow> idle (sessionRun tok numStr evs app)"
  unfolding sessionRun_def
  by (induction evs arbitrary: app) (simp_all add: idle_sessionStep)

text \<open>
  Claim C9. With no token configured, the first effect run reports the configuration
  error and creates no socket; whatever events follow, no socket is ever created, no
  reconnect timer is ever pending and the connection status stays \<^verbatim>\<open>error\<close>.
\<close>

theorem no_token_failed:
  assumes "\<not> hasToken tok"
  shows "errorMessage (startSession tok initialApp)
           = Some ''Set EXPO_PUBLIC_FINNHUB_TOKEN to stream live data.''
       \<and> connectionStatus (sessionRun tok numStr evs (startSession tok initialApp)) = Error
       \<and> sockets (sessionRun tok numStr evs (startSession tok initialApp)) = []
       \<and> timers (sessionRun tok numStr evs (startSession tok initialApp)) = []
       \<and> reconnectTimerRef (sessionRun tok numStr evs (startSession tok initialApp)) = None"
proof -
  have "idle (startSession tok initialApp)"
    using assms by (intro idle_startSession) (simp_all add: initialApp_def)
  with assms have "idle (sessionRun tok numStr evs (startSession tok initialApp))"
    by (rule idle_sessionRun)
  moreover have "errorMessage (startSession tok initialApp)
           = Some ''Set EXPO_PUBLIC_FINNHUB_TOKEN to stream live data.''"
    using assms by (simp add: startSession_def Let_def initialApp_def)
  ultimately show ?thesis
    by (simp add: idle_def)
qed

theorem no_token_failed_witness:
  "\<not> hasToken ''''
   \<and> connectionStatus
        (sessionRun '''' showInt [WsClose 0, ApplySymbol ''TSLA'', EffectCleanup 0, EffectRun, TimerFires 1]
           (startSession '''' initialApp)) = Error
   \<and> sockets
        (sessionRun '''' showInt [WsClose 0, ApplySymbol ''TSLA'', EffectCleanup 0, EffectRun, TimerFires 1]
           (startSession '''' initialApp)) = []
   \<and> timers
        (sessionRun '''' showInt [WsClose 0, ApplySymbol ''TSLA'', EffectCleanup 0, EffectRun, TimerFires 1]
           (startSession '''' initialApp)) = []"
  using no_token_failed
    [of "''''" showInt "[WsClose 0, ApplySymbol ''TSLA'', EffectCleanup 0, EffectRun, TimerFires 1]"]
  by (simp add: hasToken_def)

section \<open>Properties of the alert evaluation\<close>

lemma filter_by_id:
  assumes "distinct (map alert_id T)" and "row \<in> set T"
  shows "filter (\<lambda>r. alert_id r = alert_id row) T = [row]"
  using assms
proof (induction T)
  case Nil
  then show ?case by simp
next
  case (Cons a T)
  show ?case
  proof (cases "a = row")
    case True
    from Cons.prems(1) True have out: "alert_id row \<notin> alert_id ` set T"
      by simp
    have "\<forall>r \<in> set T. alert_id r \<noteq> alert_id row"
    proof
      fix r assume "r \<in> set T"
      then have "alert_id r \<in> alert_id ` set T" by (rule imageI)
      with out show "alert_id r \<noteq> alert_id row" by auto
    qed
    then have "filter (\<lambda>r. alert_id r = alert_id row) T = []"
      by (simp add: filter_empty_conv)
    with True show ?thesis by simp
  next
    case False
    with Cons.prems have in_T: "row \<in> set T" and d: "distinct (map alert_id T)"
      and "alert_id a \<noteq> alert_id row"
      by auto
    with Cons.IH show ?thesis by simp
  qed
qed

lemma evaluateAlerts_ids:
  assumes "dbRef app = Some db"
  shows "fst (evaluateAlerts na update app)
           = map alert_id (filter (isTriggered update) (selectUntriggered (symbol update) db))"
  using assms by (simp add: evaluateAlerts_def Let_def)

lemma evaluateAlerts_dbRef [simp]:
  "dbRef (snd (evaluateAlerts na update app)) = dbRef app"
  by (simp add: evaluateAlerts_def Let_def split: option.splits)

lemma isTriggered_iff:
  assumes "alert_direction row = ''above'' \<or> alert_direction row = ''below''"
    and "alert_price row = Some threshold"
  shows "isTriggered update row \<longleftrightarrow>
           (alert_direction row = ''above'' \<and> threshold \<le> price update)
         \<or> (alert_direction row = ''below'' \<and> price update \<le> threshold)"
  using assms by (auto simp add: isTriggered_def Let_def)

text \<open>
  Claim C3. For an update and a stored alert of the update's symbol that is not yet
  triggered, with a direction \<^verbatim>\<open>above\<close> or \<^verbatim>\<open>below\<close> and a numeric threshold, the
  evaluation puts the alert among the triggered ids, and marks it triggered in the store,
  exactly when the direction is \<^verbatim>\<open>above\<close> and the price is at least the threshold, or
  the direction is \<^verbatim>\<open>below\<close> and the price is at most the threshold.
\<close>

theorem alert_fires_iff:
  assumes db: "dbRef app = Some db"
    and ids: "distinct (map alert_id (price_alerts db))"
    and row: "row \<in> set (price_alerts db)"
    and symb: "alert_symbol row = symbol update"
    and unfired: "alert_triggered row = 0"
    and dir: "alert_direction row = ''above'' \<or> alert_direction row = ''below''"
    and thr: "alert_price row = Some threshold"
  shows "(alert_id row \<in> set (fst (evaluateAlerts na update app)))
           = ((alert_direction row = ''above'' \<and> threshold \<le> price update)
            \<or> (alert_direction row = ''below'' \<and> price update \<le> threshold))
       \<and> flagsOf (alert_id row) (checkAlertsForUpdate na update app)
           = [if (alert_direction row = ''above'' \<and> threshold \<le> price update)
               \<or> (alert_direction row = ''below'' \<and> price update \<le> threshold)
              then 1 else 0]"
proof -
  define fired where "fired = fst (evaluateAlerts na update app)"
  define cond where
    "cond \<longleftrightarrow> (alert_direction row = ''above'' \<and> threshold \<le> price update)
            \<or> (alert_direction row = ''below'' \<and> price update \<le> threshold)"
  have inj: "inj_on alert_id (set (price_alerts db))"
    using ids by (simp add: distinct_map)
  have fired_eq: "fired = map alert_id (filter (isTriggered update)
                     (selectUntriggered (symbol update) db))"
    unfolding fired_def using db by (rule evaluateAlerts_ids)
  have trig: "isTriggered update row = cond"
    unfolding cond_def using dir thr by (rule isTriggered_iff)
  have mem: "(alert_id row \<in> set fired) = cond"
  proof
    assume "alert_id row \<in> set fired"
    then obtain r where r: "r \<in> set (price_alerts db)" "isTriggered update r"
      "alert_id r = alert_id row"
      unfolding fired_eq by (auto simp add: selectUntriggered_def)
    with inj row have "r = row" by (simp add: inj_on_def)
    with r(2) trig show cond by simp
  next
    assume cond
    with trig row symb unfired show "alert_id row \<in> set fired"
      unfolding fired_eq by (auto simp add: selectUntriggered_def)
  qed
  have only: "filter (\<lambda>r. alert_id r = alert_id row) (price_alerts db) = [row]"
    using ids row by (rule filter_by_id)
  obtain app1 where ev: "evaluateAlerts na update app = (fired, app1)"
    unfolding fired_def by (cases "evaluateAlerts na update app") simp
  have db1: "dbRef app1 = Some db"
    using evaluateAlerts_dbRef [of na update app] db by (simp add: ev)
  have chk: "checkAlertsForUpdate na update app = markAndReload update fired app1"
    by (simp add: checkAlertsForUpdate_def ev)
  have flags: "flagsOf (alert_id row) (checkAlertsForUpdate na update app)
                = [if cond then 1 else 0]"
  proof (cases "fired = []")
    case True
    then have "\<not> cond" using mem by auto
    moreover have "dbRef (checkAlertsForUpdate na update app) = Some db"
      unfolding chk using True db1 by (simp add: markAndReload_def)
    ultimately show ?thesis
      using only unfired by (simp add: flagsOf_def)
  next
    case False
    have "dbRef (checkAlertsForUpdate na update app) = Some (markTriggered fired db)"
      unfolding chk using False db1 by (simp add: markAndReload_def loadAlerts_def)
    moreover have "filter (\<lambda>r. alert_id r = alert_id row)
                    (map (\<lambda>r. if alert_id r \<in> set fired then r\<lparr>alert_triggered := 1\<rparr> else r)
                       (price_alerts db))
                 = map (\<lambda>r. if alert_id r \<in> set fired then r\<lparr>alert_triggered := 1\<rparr> else r)
                     (filter (\<lambda>r. alert_id r = alert_id row) (price_alerts db))"
      by (induction "price_alerts db") (auto simp add: filter_map comp_def)
    ultimately show ?thesis
      using only unfired mem by (simp add: flagsOf_def markTriggered_def)
  qed
  from mem flags show ?thesis
    unfolding fired_def cond_def by simp
qed

theorem alert_fires_iff_witness:
  "fst (evaluateAlerts True (tick ''AAPL'' 1000 100) (initialApp\<lparr>dbRef := Some oneAlert\<rparr>)) = [1]
   \<and> flagsOf 1 (initialApp\<lparr>dbRef := Some oneAlert\<rparr>) = [0]
   \<and> flagsOf 1 (checkAlertsForUpdate True (tick ''AAPL'' 1000 100)
                   (initialApp\<lparr>dbRef := Some oneAlert\<rparr>)) = [1]
   \<and> fst (evaluateAlerts True (tick ''AAPL'' 1001 99.5) (initialApp\<lparr>dbRef := Some oneAlert\<rparr>)) = []"
proof -
  define row where
    "row = \<lparr>alert_id = 1, alert_symbol = ''AAPL'', alert_direction = ''above'',
            alert_price = Some 100, alert_triggered = 0\<rparr>"
  have d: "dbRef (initialApp\<lparr>dbRef := Some oneAlert\<rparr>) = Some oneAlert"
    by simp
  have h1: "distinct (map alert_id (price_alerts oneAlert))"
    and h2: "row \<in> set (price_alerts oneAlert)"
    and h3: "alert_symbol row = symbol (tick ''AAPL'' 1000 100)"
    and h4: "alert_triggered row = 0"
    and h5: "alert_direction row = ''above'' \<or> alert_direction row = ''below''"
    and h6: "alert_price row = Some 100"
    by (simp_all add: oneAlert_def row_def tick_def)
  have p: "price (tick ''AAPL'' 1000 100) = 100" and i: "alert_id row = 1"
    and a: "alert_direction row = ''above''"
    by (simp_all add: tick_def row_def)
  from alert_fires_iff [OF d h1 h2 h3 h4 h5 h6, of True]
  have "flagsOf 1 (checkAlertsForUpdate True (tick ''AAPL'' 1000 100)
                   (initialApp\<lparr>dbRef := Some oneAlert\<rparr>)) = [1]"
    unfolding p i a by simp
  moreover have "fst (evaluateAlerts True (tick ''AAPL'' 1000 100)
                   (initialApp\<lparr>dbRef := Some oneAlert\<rparr>)) = [1]"
    by (simp add: evaluateAlerts_def selectUntriggered_def isTriggered_def oneAlert_def
        tick_def Let_def)
  moreover have "flagsOf 1 (initialApp\<lparr>dbRef := Some oneAlert\<rparr>) = [0]"
    by (simp add: flagsOf_def oneAlert_def)
  moreover have "fst (evaluateAlerts True (tick ''AAPL'' 1001 99.5)
                   (initialApp\<lparr>dbRef := Some oneAlert\<rparr>)) = []"
    by (simp add: evaluateAlerts_def selectUntriggered_def isTriggered_def oneAlert_def
        tick_def Let_def)
  ultimately show ?thesis
    by blast
qed

lemma latch_inv_not_fired:
  assumes "latch_inv i db"
  shows "i \<notin> set (map alert_id (filter (isTriggered update) (selectUntriggered symb db)))"
proof
  assume "i \<in> set (map alert_id (filter (isTriggered update) (selectUntriggered symb db)))"
  then obtain r where r: "r \<in> set (price_alerts db)" "alert_triggered r = 0" "alert_id r = i"
    by (auto simp add: selectUntriggered_def)
  from assms r(1) r(3) have "alert_triggered r = 1"
    unfolding latch_inv_def list_all_iff by blast
  with r(2) show False by simp
qed

lemma latch_inv_markTriggered:
  assumes "latch_inv i db"
  shows "latch_inv i (markTriggered ids db)"
proof -
  have m: "map alert_id (price_alerts (markTriggered ids db)) = map alert_id (price_alerts db)"
    by (simp add: markTriggered_def comp_def if_distrib [of alert_id] cong: if_cong)
  have s: "price_alerts_seq (markTriggered ids db) = price_alerts_seq db"
    by (simp add: markTriggered_def)
  have b: "list_all (\<lambda>r. alert_id r \<le> price_alerts_seq db) (price_alerts (markTriggered ids db))"
    using assms unfolding latch_inv_def list_all_iff by (auto simp add: markTriggered_def)
  have f: "list_all (\<lambda>r. alert_id r = i \<longrightarrow> alert_triggered r = 1)
             (price_alerts (markTriggered ids db))"
    using assms unfolding latch_inv_def list_all_iff by (auto simp add: markTriggered_def)
  from assms m s b f show ?thesis
    unfolding latch_inv_def by simp
qed

lemma latch_inv_filter:
  assumes "latch_inv i db"
  shows "latch_inv i (db\<lparr>price_alerts := filter P (price_alerts db)\<rparr>)"
  using assms unfolding latch_inv_def list_all_iff
  by (auto simp add: distinct_map_filter)

lemma latch_inv_deleteAlert:
  "latch_inv i db \<Longrightarrow> latch_inv i (deleteAlert j db)"
  unfolding deleteAlert_def by (rule latch_inv_filter)

lemma latch_inv_pruneAlerts:
  "latch_inv i db \<Longrightarrow> latch_inv i (pruneAlerts s1 s2 n db)"
  unfolding pruneAlerts_def Let_def by (rule latch_inv_filter)

lemma latch_inv_insertAlert:
  assumes "latch_inv i db"
  shows "latch_inv i (insertAlert symb dir pr db)"
proof -
  have below: "alert_id r \<le> price_alerts_seq db" if "r \<in> set (price_alerts db)" for r
    using assms that unfolding latch_inv_def list_all_iff by blast
  have fresh: "price_alerts_seq db + 1 \<notin> alert_id ` set (price_alerts db)"
  proof
    assume "price_alerts_seq db + 1 \<in> alert_id ` set (price_alerts db)"
    then obtain r where r: "r \<in> set (price_alerts db)" "alert_id r = price_alerts_seq db + 1"
      by auto
    from below [OF r(1)] r(2) show False by simp
  qed
  have d: "distinct (map alert_id (price_alerts (insertAlert symb dir pr db)))"
    using assms fresh by (simp add: latch_inv_def insertAlert_def)
  have b: "list_all (\<lambda>r. alert_id r \<le> price_alerts_seq (insertAlert symb dir pr db))
             (price_alerts (insertAlert symb dir pr db))"
    using below unfolding list_all_iff by (auto simp add: insertAlert_def dest: below)
  have le: "i \<le> price_alerts_seq (insertAlert symb dir pr db)"
    using assms by (simp add: latch_inv_def insertAlert_def)
  have i: "i \<le> price_alerts_seq db"
    using assms by (simp add: latch_inv_def)
  have f: "list_all (\<lambda>r. alert_id r = i \<longrightarrow> alert_triggered r = 1)
             (price_alerts (insertAlert symb dir pr db))"
    using assms i unfolding latch_inv_def list_all_iff by (auto simp add: insertAlert_def)
  from d b le f show ?thesis
    unfolding latch_inv_def by simp
qed

lemma app_inv_evaluateAlerts:
  assumes "app_inv i app"
  shows "i \<notin> set (fst (evaluateAlerts na update app))
       \<and> app_inv i (snd (evaluateAlerts na update app))"
proof (cases "dbRef app")
  case None
  then show ?thesis
    by (simp add: evaluateAlerts_def app_inv_def)
next
  case (Some db)
  with assms have inv: "latch_inv i db"
    by (simp add: app_inv_def)
  have "i \<notin> set (fst (evaluateAlerts na update app))"
    unfolding evaluateAlerts_ids [OF Some] using inv by (rule latch_inv_not_fired)
  moreover have "app_inv i (snd (evaluateAlerts na update app))"
    using inv Some by (simp add: app_inv_def)
  ultimately show ?thesis by simp
qed

lemma app_inv_loadAlerts [simp]:
  "app_inv i (loadAlerts symb app) = app_inv i app"
  by (simp add: app_inv_def)

lemma app_inv_markAndReload:
  assumes "app_inv i app"
  shows "app_inv i (markAndReload update ids app)"
proof (cases "dbRef app")
  case None
  with assms show ?thesis by (simp add: markAndReload_def)
next
  case (Some db)
  with assms have "latch_inv i db"
    by (simp add: app_inv_def)
  then have "latch_inv i (markTriggered ids db)"
    by (rule latch_inv_markTriggered)
  with assms Some show ?thesis
    by (simp add: markAndReload_def) (simp add: app_inv_def)
qed

lemma app_inv_handleRemoveAlert:
  assumes "app_inv i app"
  shows "app_inv i (handleRemoveAlert j app)"
proof (cases "dbRef app")
  case None
  with assms show ?thesis by (simp add: handleRemoveAlert_def)
next
  case (Some db)
  with assms have "latch_inv i db"
    by (simp add: app_inv_def)
  then have "latch_inv i (deleteAlert j db)"
    by (rule latch_inv_deleteAlert)
  with Some show ?thesis
    by (simp add: handleRemoveAlert_def) (simp add: app_inv_def)
qed

lemma app_inv_alertError [simp]:
  "app_inv i (app\<lparr>alertError := x\<rparr>) = app_inv i app"
  by (simp add: app_inv_def)

lemma app_inv_alertModalVisible [simp]:
  "app_inv i (app\<lparr>alertModalVisible := x\<rparr>) = app_inv i app"
  by (simp add: app_inv_def)

lemma app_inv_handleSaveAlert:
  assumes "app_inv i app"
  shows "app_inv i (handleSaveAlert d p app)"
proof (cases "dbRef app")
  case None
  with assms show ?thesis by (simp add: handleSaveAlert_def)
next
  case (Some db)
  with assms have inv: "latch_inv i db"
    by (simp add: app_inv_def)
  show ?thesis
  proof (cases p)
    case None
    with assms Some show ?thesis by (simp add: handleSaveAlert_def)
  next
    case (Some pr)
    show ?thesis
    proof (cases "pr \<le> 0")
      case True
      with assms \<open>dbRef app = Some db\<close> Some show ?thesis
        by (simp add: handleSaveAlert_def)
    next
      case False
      from inv have "latch_inv i (insertAlert (activeSymbol app) (directionText d) pr db)"
        by (rule latch_inv_insertAlert)
      then have "latch_inv i (pruneAlerts (activeSymbol app) (activeSymbol app) ALERT_MAX_ITEMS
                    (insertAlert (activeSymbol app) (directionText d) pr db))"
        by (rule latch_inv_pruneAlerts)
      with False \<open>dbRef app = Some db\<close> Some show ?thesis
        by (simp add: handleSaveAlert_def Let_def) (simp add: app_inv_def)
    qed
  qed
qed

lemma app_inv_alertStep:
  assumes "app_inv i (fst st)"
  shows "i \<notin> set (fst (alertStep na ev st)) \<and> app_inv i (fst (snd (alertStep na ev st)))"
proof (cases st)
  case (Pair app inflight)
  with assms have inv: "app_inv i app" by simp
  show ?thesis
  proof (cases ev)
    case (EvalStart update)
    with Pair app_inv_evaluateAlerts [OF inv, of na update] show ?thesis
      by (auto split: prod.splits)
  next
    case (EvalFinish j)
    with Pair inv show ?thesis
      by (simp add: app_inv_markAndReload)
  next
    case (RemoveAlert j)
    with Pair inv show ?thesis
      by (simp add: app_inv_handleRemoveAlert)
  next
    case (SaveAlert d p)
    with Pair inv show ?thesis
      by (simp add: app_inv_handleSaveAlert)
  qed
qed

lemma app_inv_alertRun:
  "app_inv i (fst st) \<Longrightarrow>
   i \<notin> set (fst (alertRun na evs st)) \<and> app_inv i (fst (snd (alertRun na evs st)))"
proof (induction evs arbitrary: st)
  case Nil
  then show ?case by simp
next
  case (Cons ev evs)
  from app_inv_alertStep [OF Cons.prems, of na ev]
  have a: "i \<notin> set (fst (alertStep na ev st))"
    and b: "app_inv i (fst (snd (alertStep na ev st)))"
    by simp_all
  from Cons.IH [OF b]
  have c: "i \<notin> set (fst (alertRun na evs (snd (alertStep na ev st))))"
    and d: "app_inv i (fst (snd (alertRun na evs (snd (alertStep na ev st)))))"
    by simp_all
  from a c d show ?case
    by (auto split: prod.splits)
qed

lemma app_inv_flags:
  assumes "app_inv i app"
  shows "list_all (\<lambda>f. f = 1) (flagsOf i app)"
proof (cases "dbRef app")
  case None
  then show ?thesis by (simp add: flagsOf_def)
next
  case (Some db)
  with assms have "list_all (\<lambda>r. alert_id r = i \<longrightarrow> alert_triggered r = 1) (price_alerts db)"
    by (simp add: app_inv_def latch_inv_def)
  with Some show ?thesis
    by (simp add: flagsOf_def list_all_iff)
qed

text \<open>
  Claim C2. Take a stored alert whose triggered flag is 1. Along every run of alert
  evaluations, overlapping in any way, and of deletions and creations by the user, no
  evaluation puts its id among the triggered ids again, and as long as a row with its id
  is stored the flag of that row is 1: the evaluator selects untriggered rows only and
  writes nothing but the flag 1, and a created alert receives a fresh id.
\<close>

theorem triggered_latch:
  assumes wf: "alerts_wf app"
    and db: "dbRef app = Some db"
    and row: "row \<in> set (price_alerts db)"
    and fired: "alert_triggered row = 1"
  shows "alert_id row \<notin> set (fst (alertRun na evs (app, inflight)))
       \<and> list_all (\<lambda>f. f = 1)
           (flagsOf (alert_id row) (fst (snd (alertRun na evs (app, inflight)))))"
proof -
  have d: "distinct (map alert_id (price_alerts db))"
    and b: "list_all (\<lambda>r. alert_id r \<le> price_alerts_seq db) (price_alerts db)"
    using wf db by (simp_all add: alerts_wf_def)
  from b row have le: "alert_id row \<le> price_alerts_seq db"
    unfolding list_all_iff by blast
  from d have inj: "inj_on alert_id (set (price_alerts db))"
    by (simp add: distinct_map)
  have "list_all (\<lambda>r. alert_id r = alert_id row \<longrightarrow> alert_triggered r = 1) (price_alerts db)"
    unfolding list_all_iff
  proof (intro ballI impI)
    fix r assume "r \<in> set (price_alerts db)" "alert_id r = alert_id row"
    with inj row have "r = row" by (simp add: inj_on_def)
    with fired show "alert_triggered r = 1" by simp
  qed
  with d b le have "latch_inv (alert_id row) db"
    by (simp add: latch_inv_def)
  with db have "app_inv (alert_id row) (fst (app, inflight))"
    by (simp add: app_inv_def)
  from app_inv_alertRun [OF this, of na evs] show ?thesis
    by (simp add: app_inv_flags)
qed

theorem triggered_latch_witness:
  "fst (alertRun True [EvalStart (tick ''AAPL'' 1000 150), EvalFinish 0]
          (initialApp\<lparr>dbRef := Some oneAlert\<rparr>, [])) = [1]
   \<and> fst (alertRun True
          [EvalStart (tick ''AAPL'' 1001 160), EvalStart (tick ''AAPL'' 1002 170),
           EvalFinish 0, EvalFinish 0]
          (checkAlertsForUpdate True (tick ''AAPL'' 1000 150)
             (initialApp\<lparr>dbRef := Some oneAlert\<rparr>), [])) = []
   \<and> flagsOf 1 (fst (snd (alertRun True
          [EvalStart (tick ''AAPL'' 1001 160), EvalStart (tick ''AAPL'' 1002 170),
           EvalFinish 0, EvalFinish 0]
          (checkAlertsForUpdate True (tick ''AAPL'' 1000 150)
             (initialApp\<lparr>dbRef := Some oneAlert\<rparr>), [])))) = [1]"
proof -
  define row where
    "row = \<lparr>alert_id = 1, alert_symbol = ''AAPL'', alert_direction = ''above'',
            alert_price = Some 100, alert_triggered = 1\<rparr>"
  define db where "db = oneAlert\<lparr>price_alerts := [row]\<rparr>"
  define app where
    "app = checkAlertsForUpdate True (tick ''AAPL'' 1000 150)
             (initialApp\<lparr>dbRef := Some oneAlert\<rparr>)"
  have d: "dbRef app = Some db"
    unfolding app_def db_def row_def by code_simp
  have wf: "alerts_wf app"
    unfolding alerts_wf_def d by (simp add: db_def row_def oneAlert_def)
  have r: "row \<in> set (price_alerts db)" and f: "alert_triggered row = 1"
    and i: "alert_id row = 1"
    by (simp_all add: db_def row_def)
  have once: "fst (alertRun True [EvalStart (tick ''AAPL'' 1000 150), EvalFinish 0]
          (initialApp\<lparr>dbRef := Some oneAlert\<rparr>, [])) = [1]"
    by code_simp
  have none: "fst (alertRun True
          [EvalStart (tick ''AAPL'' 1001 160), EvalStart (tick ''AAPL'' 1002 170),
           EvalFinish 0, EvalFinish 0] (app, [])) = []"
    unfolding app_def by code_simp
  have flag: "flagsOf 1 (fst (snd (alertRun True
          [EvalStart (tick ''AAPL'' 1001 160), EvalStart (tick ''AAPL'' 1002 170),
           EvalFinish 0, EvalFinish 0] (app, [])))) = [1]"
    unfolding app_def by code_simp
  from triggered_latch [OF wf d r f, of True
      "[EvalStart (tick ''AAPL'' 1001 160), EvalStart (tick ''AAPL'' 1002 170),
        EvalFinish 0, EvalFinish 0]" "[]"]
  have "1 \<notin> set (fst (alertRun True
          [EvalStart (tick ''AAPL'' 1001 160), EvalStart (tick ''AAPL'' 1002 170),
           EvalFinish 0, EvalFinish 0] (app, [])))"
    unfolding i by blast
  with once none flag show ?thesis
    unfolding app_def by blast
qed

text \<open>
  Two evaluations that both select before either writes each find the alert untriggered:
  its id is triggered by both, and with notifications allowed two are scheduled.
\<close>

lemma overlapping_evaluations_fire_twice:
  "fst (alertRun True
          [EvalStart (tick ''AAPL'' 1000 150), EvalStart (tick ''AAPL'' 1001 160),
           EvalFinish 0, EvalFinish 0]
          (initialApp\<lparr>dbRef := Some oneAlert\<rparr>, [])) = [1, 1]
   \<and> length (scheduled (fst (snd (alertRun True
          [EvalStart (tick ''AAPL'' 1000 150), EvalStart (tick ''AAPL'' 1001 160),
           EvalFinish 0, EvalFinish 0]
          (initialApp\<lparr>dbRef := Some oneAlert\<rparr>, []))))) = 2"
  by code_simp

section \<open>Completions after a symbol switch\<close>

text \<open>
  Neither \<^verbatim>\<open>persistUpdate\<close> nor \<^verbatim>\<open>checkAlertsForUpdate\<close> writes the tick buffer, and an
  evaluation triggers alerts of the update's own symbol only.
\<close>

lemma persistAndCheckUpdate_updates:
  "updates (persistAndCheckUpdate na update app) = updates app"
  by (simp add: persistAndCheckUpdate_def checkAlertsForUpdate_def evaluateAlerts_def
      markAndReload_def persistUpdate_def persistUpdateWith_def loadAlerts_def Let_def split: option.splits)

lemma evaluateAlerts_own_symbol:
  assumes "dbRef app = Some db" and "i \<in> set (fst (evaluateAlerts na update app))"
  shows "\<exists>r \<in> set (price_alerts db). alert_id r = i \<and> alert_symbol r = symbol update"
  using assms by (auto simp add: evaluateAlerts_def selectUntriggered_def Let_def)

text \<open>
  Claim C5, at the input where the code departs from it. AAPL has one untriggered alert
  and an AAPL tick at 150 has been accepted; the user switches to TSLA, whose alert list
  is empty, before the evaluation of the tick completes. The completion leaves the buffer
  alone and triggers the AAPL alert only, but it reloads the listed alerts for AAPL: the
  screen of TSLA now lists the alert of AAPL.
\<close>

theorem stale_completion_overwrites_alerts:
  "activeSymbol (loadAlerts ''TSLA'' (applySymbol ''TSLA''
      (loadAlerts ''AAPL'' (initialApp\<lparr>dbRef := Some oneAlert\<rparr>)))) = ''TSLA''
   \<and> alerts (loadAlerts ''TSLA'' (applySymbol ''TSLA''
      (loadAlerts ''AAPL'' (initialApp\<lparr>dbRef := Some oneAlert\<rparr>)))) = []
   \<and> activeSymbol (persistAndCheckUpdate True (tick ''AAPL'' 1000 150)
      (loadAlerts ''TSLA'' (applySymbol ''TSLA''
        (loadAlerts ''AAPL'' (initialApp\<lparr>dbRef := Some oneAlert\<rparr>))))) = ''TSLA''
   \<and> alerts (persistAndCheckUpdate True (tick ''AAPL'' 1000 150)
      (loadAlerts ''TSLA'' (applySymbol ''TSLA''
        (loadAlerts ''AAPL'' (initialApp\<lparr>dbRef := Some oneAlert\<rparr>)))))
       = [\<lparr>th_id = 1, th_symbol = ''AAPL'', th_direction = Above, th_price = Some 100,
           th_triggered = True\<rparr>]
   \<and> updates (persistAndCheckUpdate True (tick ''AAPL'' 1000 150)
      (loadAlerts ''TSLA'' (applySymbol ''TSLA''
        (loadAlerts ''AAPL'' (initialApp\<lparr>dbRef := Some oneAlert\<rparr>))))) = []"
  by code_simp

section \<open>The capped tables on the example stores\<close>

theorem persistUpdate_prunes_to_cap_witness:
  "length (historyOf ''AAPL'' (initialApp\<lparr>dbRef := Some fullHistory\<rparr>)) = DB_MAX_ITEMS
   \<and> length (historyOf ''AAPL''
         (persistUpdate (tick ''AAPL'' 61 101) (initialApp\<lparr>dbRef := Some fullHistory\<rparr>)))
       = DB_MAX_ITEMS
   \<and> map row_id (historyOf ''AAPL''
         (persistUpdate (tick ''AAPL'' 61 101) (initialApp\<lparr>dbRef := Some fullHistory\<rparr>)))
       = map int [2 ..< 62]"
proof -
  have d: "dbRef (initialApp\<lparr>dbRef := Some fullHistory\<rparr>) = Some fullHistory"
    by simp
  have h1: "distinct (map row_id (price_updates fullHistory))"
    by code_simp
  have h2: "list_all (\<lambda>r. row_id r \<le> price_updates_seq fullHistory) (price_updates fullHistory)"
    by code_simp
  have h3: "length (historyOf (symbol (tick ''AAPL'' 61 101))
              (initialApp\<lparr>dbRef := Some fullHistory\<rparr>)) = DB_MAX_ITEMS"
    by code_simp
  have s: "symbol (tick ''AAPL'' 61 101) = ''AAPL''"
    by (simp add: tick_def)
  have h4: "map row_id (historyOf ''AAPL''
         (persistUpdate (tick ''AAPL'' 61 101) (initialApp\<lparr>dbRef := Some fullHistory\<rparr>)))
       = map int [2 ..< 62]"
    by code_simp
  from persistUpdate_prunes_to_cap [OF d h1 h2 h3]
  have "length (historyOf ''AAPL''
         (persistUpdate (tick ''AAPL'' 61 101) (initialApp\<lparr>dbRef := Some fullHistory\<rparr>)))
       = DB_MAX_ITEMS"
    unfolding s persistUpdate_def by blast
  with h3 h4 show ?thesis
    unfolding s by blast
qed

theorem handleSaveAlert_prunes_witness:
  "length (alertsOf ''AAPL'' (initialApp\<lparr>dbRef := Some fullAlerts\<rparr>)) = ALERT_MAX_ITEMS
   \<and> length (alertsOf ''AAPL''
         (handleSaveAlert Above (Some 250) (initialApp\<lparr>dbRef := Some fullAlerts\<rparr>)))
       = ALERT_MAX_ITEMS
   \<and> map alert_id (alertsOf ''AAPL''
         (handleSaveAlert Above (Some 250) (initialApp\<lparr>dbRef := Some fullAlerts\<rparr>)))
       = [1, 2, 4, 5, 6, 7, 8, 9, 10, 11, 12, 13, 14, 15, 16, 17, 18, 19, 20, 21]"
proof -
  have d: "dbRef (initialApp\<lparr>dbRef := Some fullAlerts\<rparr>) = Some fullAlerts"
    by simp
  have a: "activeSymbol (initialApp\<lparr>dbRef := Some fullAlerts\<rparr>) = ''AAPL''"
    by (simp add: initialApp_def DEFAULT_SYMBOL_def)
  have h1: "distinct (map alert_id (price_alerts fullAlerts))"
    by code_simp
  have h2: "list_all (\<lambda>r. alert_id r \<le> price_alerts_seq fullAlerts) (price_alerts fullAlerts)"
    by code_simp
  have h3: "list_all (\<lambda>r. 0 \<le> alert_triggered r) (price_alerts fullAlerts)"
    by code_simp
  have h4: "length (alertsOf (activeSymbol (initialApp\<lparr>dbRef := Some fullAlerts\<rparr>))
              (initialApp\<lparr>dbRef := Some fullAlerts\<rparr>)) = ALERT_MAX_ITEMS"
    by code_simp
  have h5: "(0::real) < 250"
    by simp
  have h6: "map alert_id (alertsOf ''AAPL''
         (handleSaveAlert Above (Some 250) (initialApp\<lparr>dbRef := Some fullAlerts\<rparr>)))
       = [1, 2, 4, 5, 6, 7, 8, 9, 10, 11, 12, 13, 14, 15, 16, 17, 18, 19, 20, 21]"
    by code_simp
  from handleSaveAlert_prunes [OF d h1 h2 h3 h4 h5, of Above]
  have "length (alertsOf ''AAPL''
         (handleSaveAlert Above (Some 250) (initialApp\<lparr>dbRef := Some fullAlerts\<rparr>)))
       = ALERT_MAX_ITEMS"
    unfolding a by blast
  with h4 h6 show ?thesis
    unfolding a by blast
qed

end
